theory Spec2Isabelle
  imports Complex_Main
begin

section \<open>The session supervisor of one slot (class MinecraftBot)\<close>

text \<open>
  The file \<^verbatim>\<open>src/src/MinecraftBot.js\<close> declares the class \<^verbatim>\<open>MinecraftBot\<close> three times
  (lines 16--714, 757--1633 and 1638--2205). The development embeds the second declaration,
  the one with the statistics, the cached whitelist, the inventory monitor and the tracked
  reconnect timer; its functions keep the names of the source. The few functions taken from
  the first or the third declaration carry the suffix \<open>_decl1\<close> or \<open>_decl3\<close>.

  The class is written against an event loop: event handlers and timer callbacks run to
  completion, an \<^verbatim>\<open>async\<close> function runs synchronously up to its first \<^verbatim>\<open>await\<close>
  and is resumed later. The embedding makes this explicit: the session record carries the
  pending timers and the suspended protection sequences, every handler is a function from
  session to session, and every call that leaves the class (the game client, the
  registered callbacks) is appended to the field \<open>calls\<close>.
\<close>

subsection \<open>JavaScript helpers\<close>

text \<open>\<^verbatim>\<open>x || d\<close> on a number that may be undefined: undefined and 0 are falsy.\<close>

definition jsOr :: "'a::zero option \<Rightarrow> 'a \<Rightarrow> 'a" where
  "jsOr x d = (case x of None \<Rightarrow> d | Some v \<Rightarrow> if v = 0 then d else v)"

text \<open>\<^verbatim>\<open>x || d\<close> on a string that may be undefined: undefined and the empty string are falsy.\<close>

definition jsOrStr :: "string option \<Rightarrow> string \<Rightarrow> string" where
  "jsOrStr x d = (case x of None \<Rightarrow> d | Some v \<Rightarrow> if v = [] then d else v)"

text \<open>\<^verbatim>\<open>String.prototype.toLowerCase\<close>, on ASCII letters.\<close>

definition toLowerChar :: "char \<Rightarrow> char" where
  "toLowerChar c =
     (case map_of (zip ''ABCDEFGHIJKLMNOPQRSTUVWXYZ'' ''abcdefghijklmnopqrstuvwxyz'') c of
        Some l \<Rightarrow> l
      | None \<Rightarrow> c)"

definition toLowerCase :: "string \<Rightarrow> string" where
  "toLowerCase s = map toLowerChar s"

text \<open>\<^verbatim>\<open>String.prototype.includes\<close>: the pattern occurs somewhere in the string.\<close>

fun str_includes :: "string \<Rightarrow> string \<Rightarrow> bool" where
  "str_includes [] p = (p = [])"
| "str_includes (c # cs) p = (take (length p) (c # cs) = p \<or> str_includes cs p)"

text \<open>Positions are the client's \<^verbatim>\<open>Vec3\<close>; \<^verbatim>\<open>distanceTo\<close> is the Euclidean distance
  (the floating-point numbers of the source are read as reals).\<close>

type_synonym vec3 = "real \<times> real \<times> real"

definition distanceTo :: "vec3 \<Rightarrow> vec3 \<Rightarrow> real" where
  "distanceTo a b =
     (case a of (ax, ay, az) \<Rightarrow> case b of (bx, by, bz) \<Rightarrow>
        sqrt ((ax - bx)\<^sup>2 + (ay - by)\<^sup>2 + (az - bz)\<^sup>2))"

subsection \<open>Data\<close>

text \<open>\<^verbatim>\<open>this.status\<close>: the strings 'offline', 'connecting', 'online', 'kicked', 'error'
  and 'failed'.\<close>

datatype status = Offline | Connecting | Online | Kicked | Errored | Failed

text \<open>An entry of \<^verbatim>\<open>bot.entities\<close>.\<close>

record entity =
  etype :: string
  eusername :: string
  eposition :: "vec3 option"

text \<open>An entry of \<^verbatim>\<open>bot.inventory.items()\<close>.\<close>

record item =
  iname :: string
  icount :: nat

text \<open>
  What the class reads from the game client \<^verbatim>\<open>this.bot\<close> (the mineflayer handle, not part
  of the repository): the own entity's position (\<^verbatim>\<open>bot.entity\<close> is undefined before the
  first spawn), the entities in the order \<^verbatim>\<open>for (const id in bot.entities)\<close> visits them,
  the food level, the inventory, the positions \<^verbatim>\<open>bot.findBlocks\<close> returns for the
  configured block type and radius, and the block names \<^verbatim>\<open>bot.blockAt\<close> finds.
\<close>

record client =
  bot_entity :: "vec3 option"
  bot_entities :: "entity list"
  bot_food :: int
  inventory_items :: "item list"
  emptySlotCount :: nat
  findBlocks :: "vec3 list"
  blockAt :: "(vec3 \<times> string) list"

text \<open>\<^verbatim>\<open>config.settings.protection\<close> and \<^verbatim>\<open>config.settings\<close>. A missing number or
  string is \<open>None\<close>; a missing flag is \<open>False\<close>.\<close>

record protection_settings =
  enabled :: bool
  emergencyDistance :: "real option"
  blockType :: "string option"
  radius :: "real option"
  breakDelay :: "int option"

record settings =
  antiAfkEnabled :: bool
  antiAfkIntervalMs :: "int option"
  proximityAlertEnabled :: bool
  autoReconnect :: bool
  maxReconnectAttempts :: "nat option"
  reconnectDelay :: "int option"
  alertDistance :: "real option"
  alertCooldown :: "int option"
  alertWhitelist :: "string list option"
  protection :: "protection_settings option"

text \<open>The callbacks handed to \<^verbatim>\<open>setInterval\<close> and \<^verbatim>\<open>setTimeout\<close>. The alert loop's
  closure holds the identity, the distance and its counter.\<close>

datatype timer =
    AntiAfkTick
  | JumpRelease
  | CheckFood
  | ProximityTick
  | AlertLoop string real nat
  | InventoryTick
  | LobbyFirstTry
  | LobbyRetry
  | ReconnectFire
  | RestartFire
  | TeleportCheck
  | ReturnCheck

text \<open>The calls that leave the class.\<close>

datatype call =
    CreateBot
  | Quit
  | SetControlState string bool
  | Equip string
  | Consume
  | LookAt vec3
  | Dig vec3
  | Chat string
  | ProximityAlert string real
  | LobbyDetected bool
  | Connected

text \<open>Where a protection sequence is suspended: the \<^verbatim>\<open>await\<close> it waits at, with the
  blocks of the current scan it has not visited yet.\<close>

datatype pcont =
    AwaitEquip
  | AwaitLookAt vec3 "vec3 list"
  | AwaitDig "vec3 list"
  | AwaitBreakDelay "vec3 list"
  | AwaitRescan

record stats =
  connectedAt :: "int option"
  totalUptime :: int
  reconnects :: nat
  spawnersBroken :: nat
  alertsTriggered :: nat
  lobbyEvents :: nat
  lastDisconnect :: "int option"

text \<open>
  The fields of the class (constructor, lines 758--803), followed by the state of the event
  loop that belongs to the slot: the pending timers as (handle, delay, callback), the next
  free handle, the suspended protection sequences, the number of suspended runs of
  \<^verbatim>\<open>checkFood\<close>, and the calls made so far. A timer
  handle is truthy, so a field holding one is \<open>Some\<close> handle, and \<^verbatim>\<open>null\<close> is \<open>None\<close>.
  \<open>onProximityAlert\<close>, \<open>onLobbyDetected\<close> and \<open>onConnect\<close> say whether a callback is
  registered. \<open>autoEatInterval\<close> is a field of the third declaration only. The set
  \<^verbatim>\<open>toolAlertSent\<close> belongs to the tick of the inventory monitor, which is not embedded.
\<close>

record session =
  settings :: settings
  username :: string
  bot :: "client option"
  status :: status
  isPaused :: bool
  isConnecting :: bool
  isManuallyStopped :: bool
  reconnectAttempts :: nat
  antiAfkInterval :: "nat option"
  proximityInterval :: "nat option"
  autoEatTimeout :: "nat option"
  autoEatInterval :: "nat option"
  alertCooldowns :: "string \<Rightarrow> int option"
  onProximityAlert :: bool
  onLobbyDetected :: bool
  onConnect :: bool
  tempReconnectDelay :: "int option"
  protectionEnabled :: bool
  reconnectTimeout :: "nat option"
  lastPosition :: "vec3 option"
  isInLobby :: bool
  lobbyRetryInterval :: "nat option"
  isEating :: bool
  eatTimeoutCount :: nat
  inventoryMonitorInterval :: "nat option"
  inventoryAlertSent :: bool
  stats :: stats
  cachedWhitelist :: "string list"
  protectionRunning :: bool
  timers :: "(nat \<times> int \<times> timer) list"
  nextTimer :: nat
  protectionTasks :: "pcont list"
  eatTasks :: nat
  calls :: "call list"

subsection \<open>Timers and calls\<close>

text \<open>\<^verbatim>\<open>setInterval\<close>/\<^verbatim>\<open>setTimeout\<close> return a fresh handle; \<^verbatim>\<open>clearInterval\<close>/\<^verbatim>\<open>clearTimeout\<close>
  remove the timer with that handle.\<close>

definition setTimer :: "int \<Rightarrow> timer \<Rightarrow> session \<Rightarrow> session" where
  "setTimer delay cb s =
     s\<lparr>timers := timers s @ [(nextTimer s, delay, cb)], nextTimer := Suc (nextTimer s)\<rparr>"

definition clearTimer :: "nat \<Rightarrow> session \<Rightarrow> session" where
  "clearTimer h s = s\<lparr>timers := filter (\<lambda>t. fst t \<noteq> h) (timers s)\<rparr>"

definition call :: "call \<Rightarrow> session \<Rightarrow> session" where
  "call c s = s\<lparr>calls := calls s @ [c]\<rparr>"

text \<open>The class clears a timer it tracks in a field \<^verbatim>\<open>f\<close> by
  \<^verbatim>\<open>if (this.f) { clearInterval(this.f); this.f = null; }\<close>, which is written
  \<open>(clearTracked (f s) s)\<lparr>f := None\<rparr>\<close> below: assigning \<^verbatim>\<open>null\<close> to a field that holds
  \<^verbatim>\<open>null\<close> changes nothing.\<close>

definition clearTracked :: "nat option \<Rightarrow> session \<Rightarrow> session" where
  "clearTracked handle s = (case handle of Some h \<Rightarrow> clearTimer h s | None \<Rightarrow> s)"

subsection \<open>cleanup, stop, toggleProtection\<close>

text \<open>\<^verbatim>\<open>stopLobbyRetry\<close>, lines 1308--1313.\<close>

definition stopLobbyRetry :: "session \<Rightarrow> session" where
  "stopLobbyRetry s = (clearTracked (lobbyRetryInterval s) s)\<lparr>lobbyRetryInterval := None\<rparr>"

text \<open>\<^verbatim>\<open>cleanup\<close>, lines 1597--1619.\<close>

definition cleanup :: "session \<Rightarrow> session" where
  "cleanup s =
     (let s1 = (clearTracked (antiAfkInterval s) s)\<lparr>antiAfkInterval := None\<rparr>;
          s2 = (clearTracked (proximityInterval s1) s1)\<lparr>proximityInterval := None\<rparr>;
          s3 = (clearTracked (autoEatTimeout s2) s2)\<lparr>autoEatTimeout := None\<rparr>;
          s4 = (clearTracked (inventoryMonitorInterval s3) s3)\<lparr>inventoryMonitorInterval := None\<rparr>;
          s5 = stopLobbyRetry s4
      in s5\<lparr>isInLobby := False, bot := None, status := Offline\<rparr>)"

text \<open>\<^verbatim>\<open>stop\<close>, lines 1429--1444. The function is \<^verbatim>\<open>async\<close> and has no \<^verbatim>\<open>await\<close>: its body
  runs to the end when it is called. It returns \<^verbatim>\<open>true\<close>.\<close>

definition stop :: "session \<Rightarrow> bool \<times> session" where
  "stop s =
     (let s1 = s\<lparr>isManuallyStopped := True\<rparr>;
          s2 = (clearTracked (reconnectTimeout s1) s1)\<lparr>reconnectTimeout := None\<rparr>;
          s3 = (case bot s2 of Some b \<Rightarrow> call Quit s2 | None \<Rightarrow> s2)
      in (True, cleanup s3))"

text \<open>\<^verbatim>\<open>cleanup\<close> and \<^verbatim>\<open>stop\<close> of the first declaration, lines 682--700 and 516--529:
  no inventory monitor, no tracked reconnect timer, and \<^verbatim>\<open>stop\<close> returns \<^verbatim>\<open>false\<close> at once
  when no client is held.\<close>

definition cleanup_decl1 :: "session \<Rightarrow> session" where
  "cleanup_decl1 s =
     (let s1 = (clearTracked (antiAfkInterval s) s)\<lparr>antiAfkInterval := None\<rparr>;
          s2 = (clearTracked (proximityInterval s1) s1)\<lparr>proximityInterval := None\<rparr>;
          s3 = (clearTracked (autoEatTimeout s2) s2)\<lparr>autoEatTimeout := None\<rparr>;
          s4 = stopLobbyRetry s3
      in s4\<lparr>isInLobby := False, bot := None, status := Offline\<rparr>)"

definition stop_decl1 :: "session \<Rightarrow> bool \<times> session" where
  "stop_decl1 s =
     (case bot s of
        None \<Rightarrow> (False, s)
      | Some b \<Rightarrow> (True, cleanup_decl1 (call Quit (s\<lparr>isManuallyStopped := True\<rparr>))))"

text \<open>\<^verbatim>\<open>toggleProtection(forceState = null)\<close>, lines 1275--1283; it returns the new
  value of the flag.\<close>

definition toggleProtection :: "bool option \<Rightarrow> session \<Rightarrow> bool \<times> session" where
  "toggleProtection forceState s =
     (let s1 = (case forceState of
                  Some b \<Rightarrow> s\<lparr>protectionEnabled := b\<rparr>
                | None \<Rightarrow> s\<lparr>protectionEnabled := \<not> protectionEnabled s\<rparr>)
      in (protectionEnabled s1, s1))"

subsection \<open>Construction and start\<close>

text \<open>The constructor, lines 758--803: \<open>prot\<close> is \<^verbatim>\<open>accountConfig.protectionEnabled\<close>, the
  persisted per-slot override.\<close>

definition newSession :: "settings \<Rightarrow> string \<Rightarrow> bool option \<Rightarrow> session" where
  "newSession cfg name prot =
     \<lparr>settings = cfg, username = name, bot = None, status = Offline, isPaused = False,
      isConnecting = False, isManuallyStopped = False, reconnectAttempts = 0,
      antiAfkInterval = None, proximityInterval = None, autoEatTimeout = None,
      autoEatInterval = None, alertCooldowns = Map.empty,
      onProximityAlert = False, onLobbyDetected = False, onConnect = False,
      tempReconnectDelay = None,
      protectionEnabled =
        (case prot of
           Some b \<Rightarrow> b
         | None \<Rightarrow> (case protection cfg of Some p \<Rightarrow> enabled p | None \<Rightarrow> False)),
      reconnectTimeout = None, lastPosition = None, isInLobby = False,
      lobbyRetryInterval = None, isEating = False, eatTimeoutCount = 0,
      inventoryMonitorInterval = None, inventoryAlertSent = False,
      stats = \<lparr>connectedAt = None, totalUptime = 0, reconnects = 0, spawnersBroken = 0,
                alertsTriggered = 0, lobbyEvents = 0, lastDisconnect = None\<rparr>,
      cachedWhitelist =
        map toLowerCase (case alertWhitelist cfg of Some w \<Rightarrow> w | None \<Rightarrow> []),
      protectionRunning = False,
      timers = [], nextTimer = 0, protectionTasks = [], eatTasks = 0, calls = []\<rparr>"

text \<open>The handle \<^verbatim>\<open>mineflayer.createBot\<close> returns: nothing of the world is known yet.\<close>

definition newClient :: client where
  "newClient =
     \<lparr>bot_entity = None, bot_entities = [], bot_food = 20, inventory_items = [],
      emptySlotCount = 36, findBlocks = [], blockAt = []\<rparr>"

text \<open>\<^verbatim>\<open>start\<close>, lines 805--849. \<open>created\<close> says whether \<^verbatim>\<open>mineflayer.createBot\<close> returns
  a handle (\<open>True\<close>) or throws (\<open>False\<close>, the \<^verbatim>\<open>catch\<close> branch).\<close>

definition start :: "bool \<Rightarrow> session \<Rightarrow> bool \<times> session" where
  "start created s =
     (if isConnecting s then (False, s)
      else if bot s \<noteq> None then (False, s)
      else
        let s1 = call CreateBot
                   (s\<lparr>isConnecting := True, isManuallyStopped := False, status := Connecting\<rparr>)
        in if created then (True, s1\<lparr>bot := Some newClient\<rparr>)
           else (False, s1\<lparr>isConnecting := False, status := Errored\<rparr>))"

subsection \<open>Background loops: arming the timers\<close>

text \<open>\<^verbatim>\<open>startAntiAfk\<close> (lines 1020--1031), \<^verbatim>\<open>startAutoEat\<close> (1033--1093, its last line),
  \<^verbatim>\<open>startProximityCheck\<close> (1095--1154) and \<^verbatim>\<open>startInventoryMonitor\<close> (1315--1377): each
  stores the handle of a new timer. The callbacks are the functions \<open>antiAfkTick\<close>,
  \<open>checkFood\<close> and \<open>proximityTick\<close> below.\<close>

definition startAntiAfk :: "session \<Rightarrow> session" where
  "startAntiAfk s =
     (setTimer (jsOr (antiAfkIntervalMs (settings s)) 30000) AntiAfkTick s)
       \<lparr>antiAfkInterval := Some (nextTimer s)\<rparr>"

definition startAutoEat :: "session \<Rightarrow> session" where
  "startAutoEat s = (setTimer 5000 CheckFood s)\<lparr>autoEatTimeout := Some (nextTimer s)\<rparr>"

definition startProximityCheck :: "session \<Rightarrow> session" where
  "startProximityCheck s =
     (setTimer 1000 ProximityTick s)\<lparr>proximityInterval := Some (nextTimer s)\<rparr>"

definition startInventoryMonitor :: "session \<Rightarrow> session" where
  "startInventoryMonitor s =
     (let s1 = clearTracked (inventoryMonitorInterval s) s;
          s2 = s1\<lparr>inventoryAlertSent := False\<rparr>
      in (setTimer 60000 InventoryTick s2)\<lparr>inventoryMonitorInterval := Some (nextTimer s2)\<rparr>)"

subsection \<open>Lobby mode\<close>

text \<open>\<^verbatim>\<open>startLobbyRetry\<close>, lines 1285--1306: the first attempt after 10 s is not tracked,
  the repeating one is.\<close>

definition startLobbyRetry :: "session \<Rightarrow> session" where
  "startLobbyRetry s =
     (let s1 = stopLobbyRetry s;
          s2 = setTimer 10000 LobbyFirstTry s1
      in (setTimer 30000 LobbyRetry s2)\<lparr>lobbyRetryInterval := Some (nextTimer s2)\<rparr>)"

text \<open>\<^verbatim>\<open>enterLobbyMode\<close>, lines 979--1001.\<close>

definition enterLobbyMode :: "session \<Rightarrow> session" where
  "enterLobbyMode s =
     (if isInLobby s then s
      else
        let s1 = s\<lparr>isInLobby := True,
                   stats := (stats s)\<lparr>lobbyEvents := Suc (lobbyEvents (stats s))\<rparr>\<rparr>;
            s2 = (clearTracked (proximityInterval s1) s1)\<lparr>proximityInterval := None\<rparr>;
            s3 = (clearTracked (antiAfkInterval s2) s2)\<lparr>antiAfkInterval := None\<rparr>;
            s4 = (if onLobbyDetected s3 then call (LobbyDetected True) s3 else s3)
        in startLobbyRetry s4)"

text \<open>\<^verbatim>\<open>exitLobbyMode\<close>, lines 1003--1018.\<close>

definition exitLobbyMode :: "session \<Rightarrow> session" where
  "exitLobbyMode s =
     (let s1 = stopLobbyRetry (s\<lparr>isInLobby := False\<rparr>);
          s2 = (if onLobbyDetected s1 then call (LobbyDetected False) s1 else s1);
          s3 = (if antiAfkEnabled (settings s2) then startAntiAfk s2 else s2)
      in if proximityAlertEnabled (settings s3) then startProximityCheck s3 else s3)"

subsection \<open>Reconnection\<close>

text \<open>\<^verbatim>\<open>handleReconnect\<close>, lines 1403--1427. A missing \<^verbatim>\<open>maxReconnectAttempts\<close> makes the
  comparison \<^verbatim>\<open>>=\<close> false. The delay is
  \<^verbatim>\<open>this.tempReconnectDelay || this.config.settings.reconnectDelay || 5000\<close>.\<close>

definition handleReconnect :: "session \<Rightarrow> session" where
  "handleReconnect s =
     (if isManuallyStopped s then s
      else if (case maxReconnectAttempts (settings s) of
                 Some m \<Rightarrow> m \<le> reconnectAttempts s | None \<Rightarrow> False)
      then s\<lparr>status := Failed\<rparr>
      else
        let s1 = s\<lparr>reconnectAttempts := Suc (reconnectAttempts s)\<rparr>;
            delay = jsOr (tempReconnectDelay s1) (jsOr (reconnectDelay (settings s1)) 5000);
            s2 = s1\<lparr>tempReconnectDelay := None\<rparr>
        in (setTimer delay ReconnectFire s2)\<lparr>reconnectTimeout := Some (nextTimer s2)\<rparr>)"

text \<open>The callback of the reconnect timer, lines 1422--1426.\<close>

definition reconnectFire :: "bool \<Rightarrow> session \<Rightarrow> session" where
  "reconnectFire created s = (if \<not> isManuallyStopped s then snd (start created s) else s)"

text \<open>\<^verbatim>\<open>pause\<close>, \<^verbatim>\<open>resume\<close>, \<^verbatim>\<open>restart\<close> and \<^verbatim>\<open>sendChat\<close>, lines 1446--1477 and
  1536--1550. \<^verbatim>\<open>restart\<close> stops and sets a timer of 2 s whose callback, \<open>restartFire\<close>,
  calls \<^verbatim>\<open>start\<close>.\<close>

definition pause :: "session \<Rightarrow> bool \<times> session" where
  "pause s = (case bot s of None \<Rightarrow> (False, s) | Some b \<Rightarrow> (True, s\<lparr>isPaused := True\<rparr>))"

definition resume :: "session \<Rightarrow> bool \<times> session" where
  "resume s = (case bot s of None \<Rightarrow> (False, s) | Some b \<Rightarrow> (True, s\<lparr>isPaused := False\<rparr>))"

definition restart :: "session \<Rightarrow> bool \<times> session" where
  "restart s = (True, setTimer 2000 RestartFire (snd (stop s)))"

definition restartFire :: "bool \<Rightarrow> session \<Rightarrow> session" where
  "restartFire created s = snd (start created s)"

definition sendChat :: "string \<Rightarrow> session \<Rightarrow> bool \<times> session" where
  "sendChat message s =
     (case bot s of
        None \<Rightarrow> (False, s)
      | Some b \<Rightarrow>
          if status s \<noteq> Online \<or> isPaused s then (False, s) else (True, call (Chat message) s))"

subsection \<open>Handlers of the client's events\<close>

text \<open>A handler that dereferences \<^verbatim>\<open>this.bot\<close> while it is \<^verbatim>\<open>null\<close> ends with a
  \<^verbatim>\<open>TypeError\<close>; what it has assigned until then stays assigned.\<close>

datatype completion = Normal | TypeError

text \<open>The handler of 'login', lines 852--878; \<open>now\<close> is \<^verbatim>\<open>Date.now()\<close>.\<close>

definition onLogin :: "int \<Rightarrow> session \<Rightarrow> completion \<times> session" where
  "onLogin now s =
     (let s1 = s\<lparr>status := Online, isConnecting := False,
                 stats := (stats s)\<lparr>connectedAt := Some now,
                   reconnects := (if 0 < reconnectAttempts s then Suc (reconnects (stats s))
                                  else reconnects (stats s))\<rparr>,
                 reconnectAttempts := 0\<rparr>
      in case bot s1 of
           None \<Rightarrow> (TypeError, s1)
         | Some b \<Rightarrow>
             let s2 = call (SetControlState ''sneak'' True) s1;
                 s3 = (if antiAfkEnabled (settings s2) then startAntiAfk s2 else s2);
                 s4 = (if proximityAlertEnabled (settings s3) then startProximityCheck s3 else s3);
                 s5 = (if onConnect s4 then call Connected s4 else s4)
             in (Normal, startInventoryMonitor (startAutoEat s5)))"

text \<open>The handler of 'spawn', lines 880--912.\<close>

definition onSpawn :: "session \<Rightarrow> completion \<times> session" where
  "onSpawn s =
     (case bot s of
        None \<Rightarrow> (TypeError, s)
      | Some b \<Rightarrow>
          let s1 = call (SetControlState ''sneak'' True) s
          in if (case (lastPosition s1, bot_entity b) of
                   (Some home, Some currentPos) \<Rightarrow>
                     200 < distanceTo home currentPos \<and> \<not> isInLobby s1
                 | _ \<Rightarrow> False)
             then (Normal, enterLobbyMode s1)
             else
               let s2 = (if isInLobby s1 then
                           (case (lastPosition s1, bot_entity b) of
                              (Some home, Some currentPos) \<Rightarrow>
                                if distanceTo home currentPos < 50 then exitLobbyMode s1 else s1
                            | _ \<Rightarrow> s1)
                         else s1);
                   s3 = (if \<not> isInLobby s2 then
                           (case bot_entity b of
                              Some currentPos \<Rightarrow> s2\<lparr>lastPosition := Some currentPos\<rparr>
                            | None \<Rightarrow> s2)
                         else s2)
               in (Normal, s3))"

text \<open>The handler of 'end', lines 914--927. \<^verbatim>\<open>if (this.stats.connectedAt)\<close> is false for
  \<^verbatim>\<open>null\<close> and for the number 0.\<close>

definition onEnd :: "int \<Rightarrow> session \<Rightarrow> session" where
  "onEnd now s =
     (let st = (stats s)\<lparr>lastDisconnect := Some now\<rparr>;
          st1 = (case connectedAt st of
                   Some t \<Rightarrow> if t \<noteq> 0 then st\<lparr>totalUptime := totalUptime st + (now - t),
                                                  connectedAt := None\<rparr>
                             else st
                 | None \<Rightarrow> st);
          s1 = cleanup (s\<lparr>isConnecting := False, stats := st1\<rparr>)
      in if autoReconnect (settings s1) \<and> \<not> isPaused s1 then handleReconnect s1 else s1)"

text \<open>The handlers of 'kicked' and 'error', lines 929--945; \<open>reasonStr\<close> is the reason as a
  string.\<close>

definition onKicked :: "string \<Rightarrow> session \<Rightarrow> session" where
  "onKicked reasonStr s =
     (let s1 = s\<lparr>isConnecting := False, status := Kicked\<rparr>
      in if str_includes reasonStr ''already online'' \<or> str_includes reasonStr ''already connected''
         then s1\<lparr>tempReconnectDelay := Some 6000\<rparr>
         else s1)"

definition onError :: "session \<Rightarrow> session" where
  "onError s = s\<lparr>isConnecting := False, status := Errored\<rparr>"

text \<open>The handler of 'messagestr', lines 947--976, and the two delayed position checks it
  sets up. The second pattern is the Turkish word of the source in UTF-8.\<close>

definition teleportWord :: string where
  "teleportWord =
     [CHR 0xC4, CHR 0xB1, CHR 0xC5, CHR 0x9F, CHR 0xC4, CHR 0xB1] @ ''nland'' @ [CHR 0xC4, CHR 0xB1]"

definition onMessage :: "string \<Rightarrow> session \<Rightarrow> session" where
  "onMessage message s =
     (let msg = toLowerCase message
      in if str_includes msg ''teleported'' \<or> str_includes msg teleportWord
         then (if \<not> isInLobby s then setTimer 1000 TeleportCheck s
               else setTimer 1500 ReturnCheck s)
         else s)"

definition teleportCheck :: "session \<Rightarrow> session" where
  "teleportCheck s =
     (case bot s of
        None \<Rightarrow> s
      | Some b \<Rightarrow>
          (case (bot_entity b, lastPosition s) of
             (Some currentPos, Some home) \<Rightarrow>
               if \<not> isInLobby s \<and> 200 < distanceTo currentPos home then enterLobbyMode s else s
           | _ \<Rightarrow> s))"

definition returnCheck :: "session \<Rightarrow> session" where
  "returnCheck s =
     (case bot s of
        None \<Rightarrow> s
      | Some b \<Rightarrow>
          (case (bot_entity b, lastPosition s) of
             (Some currentPos, Some home) \<Rightarrow>
               if isInLobby s \<and> distanceTo currentPos home < 50 then exitLobbyMode s else s
           | _ \<Rightarrow> s))"

text \<open>The callbacks of the lobby retry loop, lines 1290--1305.\<close>

definition lobbyFirstTry :: "session \<Rightarrow> session" where
  "lobbyFirstTry s =
     (case bot s of
        None \<Rightarrow> s
      | Some b \<Rightarrow> if isInLobby s then call (Chat ''/home sp1'') s else s)"

definition lobbyRetry :: "session \<Rightarrow> session" where
  "lobbyRetry s =
     (case bot s of
        None \<Rightarrow> stopLobbyRetry s
      | Some b \<Rightarrow> if \<not> isInLobby s then stopLobbyRetry s else call (Chat ''/home sp1'') s)"

subsection \<open>Idle prevention and self-sustenance\<close>

text \<open>The callback of the anti-AFK interval, lines 1023--1030, and the release of the jump
  100 ms later.\<close>

definition antiAfkTick :: "session \<Rightarrow> session" where
  "antiAfkTick s =
     (case bot s of
        None \<Rightarrow> s
      | Some b \<Rightarrow>
          if status s = Online \<and> \<not> isPaused s \<and> \<not> isEating s
          then setTimer 100 JumpRelease (call (SetControlState ''jump'' True) s)
          else s)"

definition jumpRelease :: "session \<Rightarrow> session" where
  "jumpRelease s = (case bot s of None \<Rightarrow> s | Some b \<Rightarrow> call (SetControlState ''jump'' False) s)"

text \<open>\<^verbatim>\<open>FOOD_ITEMS\<close>, lines 745--755.\<close>

definition FOOD_ITEMS :: "string list" where
  "FOOD_ITEMS =
     [''bread'', ''cooked_beef'', ''cooked_porkchop'', ''cooked_chicken'',
      ''cooked_mutton'', ''cooked_rabbit'', ''cooked_cod'', ''cooked_salmon'',
      ''golden_apple'', ''apple'', ''golden_carrot'', ''carrot'',
      ''baked_potato'', ''beetroot'', ''melon_slice'', ''cookie'',
      ''beef'', ''porkchop'', ''chicken'', ''mutton'', ''rabbit'',
      ''cod'', ''salmon'', ''potato'', ''beetroot_soup'',
      ''mushroom_stew'', ''rabbit_stew'', ''suspicious_stew'',
      ''sweet_berries'', ''glow_berries'', ''dried_kelp'',
      ''pumpkin_pie'', ''honey_bottle'']"

text \<open>
  \<^verbatim>\<open>checkFood\<close>, lines 1036--1090, is \<^verbatim>\<open>async\<close> with one \<^verbatim>\<open>await\<close>, on the race of the
  equip-then-consume task against a timeout of 5 s. \<open>checkFood\<close> is the part up to the
  \<^verbatim>\<open>await\<close>: it either re-arms the timer (the \<^verbatim>\<open>finally\<close> block with the base interval
  \<open>checkInterval\<close>), or sets \<^verbatim>\<open>isEating\<close>, calls \<^verbatim>\<open>equip\<close> and waits (result \<open>True\<close>).
\<close>

definition checkInterval :: int where
  "checkInterval = 5000"

definition nextCheck :: "int \<Rightarrow> session \<Rightarrow> session" where
  "nextCheck nextDelay s = (setTimer nextDelay CheckFood s)\<lparr>autoEatTimeout := Some (nextTimer s)\<rparr>"

definition checkFood :: "session \<Rightarrow> bool \<times> session" where
  "checkFood s =
     (case bot s of
        None \<Rightarrow> (False, nextCheck checkInterval s)
      | Some b \<Rightarrow>
          if status s \<noteq> Online \<or> isPaused s then (False, nextCheck checkInterval s)
          else if bot_food b < 14 then
            (case find (\<lambda>i. iname i \<in> set FOOD_ITEMS) (inventory_items b) of
               Some foodItem \<Rightarrow> (True, call (Equip (iname foodItem)) (s\<lparr>isEating := True\<rparr>))
             | None \<Rightarrow> (False, nextCheck checkInterval s))
          else (False, nextCheck checkInterval s))"

text \<open>
  How the race ends: the task completed, or the race was rejected with an error of the
  given message (the timeout rejects with 'Eat operation timed out'). \<open>checkFoodResume\<close>
  is the rest of \<^verbatim>\<open>checkFood\<close>, lines 1067--1089: the success branch, the \<^verbatim>\<open>catch\<close>
  block (\<open>eatCatch\<close>, with the test of line 1076 as \<open>isTimeoutMessage\<close>) and the
  \<^verbatim>\<open>finally\<close> block. The log line of the success branch reads
  \<^verbatim>\<open>this.bot.food\<close>; without a client that is a TypeError inside the \<^verbatim>\<open>try\<close>, which the
  \<^verbatim>\<open>catch\<close> block treats as any other error.
\<close>

datatype eat_outcome = Eaten | EatError string

definition isTimeoutMessage :: "string \<Rightarrow> bool" where
  "isTimeoutMessage message =
     (str_includes message ''Promise timed out''
      \<or> str_includes message ''Eat operation timed out'')"

definition eatCatch :: "string \<Rightarrow> session \<Rightarrow> session" where
  "eatCatch message s =
     (let s1 = s\<lparr>isEating := False\<rparr>
      in if isTimeoutMessage message
         then
           let s2 = s1\<lparr>eatTimeoutCount := Suc (eatTimeoutCount s1)\<rparr>
           in nextCheck (if 3 < eatTimeoutCount s2 then 60000 else 30000) s2
         else nextCheck 10000 s1)"

definition checkFoodResume :: "eat_outcome \<Rightarrow> session \<Rightarrow> session" where
  "checkFoodResume outcome s =
     (case outcome of
        Eaten \<Rightarrow>
          (let s1 = s\<lparr>isEating := False, eatTimeoutCount := 0\<rparr>
           in case bot s1 of
                Some b \<Rightarrow> nextCheck checkInterval s1
              | None \<Rightarrow> eatCatch ''Cannot read properties of null (reading 'food')'' s1)
      | EatError message \<Rightarrow> eatCatch message s)"

subsection \<open>The protection sequence\<close>

text \<open>\<^verbatim>\<open>this.config.settings.protection?.emergencyDistance || 10\<close>, as lines 1112 and 1158
  compute it.\<close>

definition emergencyDistanceOf :: "session \<Rightarrow> real" where
  "emergencyDistanceOf s =
     jsOr (case protection (settings s) of Some p \<Rightarrow> emergencyDistance p | None \<Rightarrow> None) 10"

text \<open>\<^verbatim>\<open>isEnemyNearby\<close>, lines 1156--1173; \<open>enemyAmong\<close> is its loop over the entities.\<close>

fun enemyAmong :: "session \<Rightarrow> vec3 \<Rightarrow> entity list \<Rightarrow> bool" where
  "enemyAmong s me [] = False"
| "enemyAmong s me (e # es) =
     (if etype e \<noteq> ''player'' \<or> eusername e = username s then enemyAmong s me es
      else if toLowerCase (eusername e) \<in> set (cachedWhitelist s) then enemyAmong s me es
      else (case eposition e of
              None \<Rightarrow> enemyAmong s me es
            | Some p \<Rightarrow> if distanceTo me p \<le> emergencyDistanceOf s then True
                        else enemyAmong s me es))"

definition isEnemyNearby :: "session \<Rightarrow> bool" where
  "isEnemyNearby s =
     (case bot s of
        None \<Rightarrow> False
      | Some b \<Rightarrow> (case bot_entity b of None \<Rightarrow> False | Some me \<Rightarrow> enemyAmong s me (bot_entities b)))"

text \<open>
  \<^verbatim>\<open>executeProtection\<close>, lines 1175--1273, is \<^verbatim>\<open>async\<close>. A run of it from a call or from
  a resumption up to the next \<^verbatim>\<open>await\<close> or to its end gives the session and one of:
  it returned at once at a guard (\<open>Skipped\<close>), it waits at an \<^verbatim>\<open>await\<close> (\<open>Suspended\<close>),
  it ended (\<open>Finished\<close>, with the way it left: the code after the \<^verbatim>\<open>while\<close> loop, the
  threat branch of line 1230, or a \<^verbatim>\<open>return\<close> of lines 1227 and 1248 on a missing client),
  or it ended with an uncaught TypeError (\<open>Rejected\<close>).
\<close>

datatype exit = AfterLoop | Threat | ClientGone

datatype presult = Skipped | Suspended pcont | Finished exit | Rejected

definition blockName :: "protection_settings \<Rightarrow> string" where
  "blockName p = jsOrStr (blockType p) ''spawner''"

text \<open>Lines 1267--1272, the code after the \<^verbatim>\<open>while\<close> loop.\<close>

definition afterLoop :: "session \<Rightarrow> session \<times> presult" where
  "afterLoop s =
     (let s1 = (case bot s of Some b \<Rightarrow> call (SetControlState ''sneak'' False) s | None \<Rightarrow> s)
      in (snd (stop (s1\<lparr>protectionRunning := False\<rparr>)), Finished AfterLoop))"

text \<open>Lines 1226--1261, the \<^verbatim>\<open>for\<close> loop over the positions found, up to the next
  \<^verbatim>\<open>await\<close>. Leaving the loop (at its end or by the \<^verbatim>\<open>break\<close> of line 1240) leads to the
  \<^verbatim>\<open>await\<close> of the 50 ms pause of line 1264.\<close>

fun breakBlocks :: "protection_settings \<Rightarrow> vec3 list \<Rightarrow> session \<Rightarrow> session \<times> presult" where
  "breakBlocks p [] s = (s, Suspended AwaitRescan)"
| "breakBlocks p (pos # rest) s =
     (case bot s of
        None \<Rightarrow> (s\<lparr>protectionRunning := False\<rparr>, Finished ClientGone)
      | Some b \<Rightarrow>
          if isEnemyNearby s then (snd (stop (s\<lparr>protectionRunning := False\<rparr>)), Finished Threat)
          else if emptySlotCount b \<le> 2 then (s, Suspended AwaitRescan)
          else (case map_of (blockAt b) pos of
                  None \<Rightarrow> breakBlocks p rest s
                | Some name \<Rightarrow>
                    if name \<noteq> blockName p then breakBlocks p rest s
                    else (call (LookAt pos) s, Suspended (AwaitLookAt pos rest))))"

text \<open>Lines 1204--1224, the head of the \<^verbatim>\<open>while\<close> loop.\<close>

definition scanLoop :: "protection_settings \<Rightarrow> session \<Rightarrow> session \<times> presult" where
  "scanLoop p s =
     (case bot s of
        None \<Rightarrow> afterLoop s
      | Some b \<Rightarrow>
          if status s \<noteq> Online then afterLoop s
          else if emptySlotCount b \<le> 2 then afterLoop s
          else if findBlocks b = [] then afterLoop s
          else breakBlocks p (findBlocks b) s)"

text \<open>Lines 1199--1204: engage the sneak control and enter the loop. After the
  \<^verbatim>\<open>await\<close> of the equip the client may be gone, and line 1199 dereferences it.\<close>

definition sneakAndScan :: "protection_settings \<Rightarrow> session \<Rightarrow> session \<times> presult" where
  "sneakAndScan p s =
     (case bot s of
        None \<Rightarrow> (s, Rejected)
      | Some b \<Rightarrow> scanLoop p (call (SetControlState ''sneak'' True) s))"

text \<open>Lines 1175--1198, the call of \<^verbatim>\<open>executeProtection\<close> up to its first \<^verbatim>\<open>await\<close>.
  Line 1182 dereferences \<^verbatim>\<open>config.settings.protection\<close>.\<close>

definition executeProtection :: "session \<Rightarrow> session \<times> presult" where
  "executeProtection s =
     (case bot s of
        None \<Rightarrow> (s, Skipped)
      | Some b \<Rightarrow>
          if status s \<noteq> Online then (s, Skipped)
          else if protectionRunning s then (s, Skipped)
          else
            let s1 = s\<lparr>protectionRunning := True\<rparr>
            in (case protection (settings s1) of
                  None \<Rightarrow> (s1, Rejected)
                | Some p \<Rightarrow>
                    (case find (\<lambda>i. str_includes (iname i) ''pickaxe'') (inventory_items b) of
                       Some pickaxe \<Rightarrow> (call (Equip (iname pickaxe)) s1, Suspended AwaitEquip)
                     | None \<Rightarrow> sneakAndScan p s1)))"

text \<open>The resumption of a suspended sequence; \<open>ok\<close> says whether the awaited promise was
  fulfilled (\<open>True\<close>) or rejected (\<open>False\<close>, which the \<^verbatim>\<open>catch\<close> blocks of lines 1192 and
  1258 log).\<close>

definition resumeProtection :: "pcont \<Rightarrow> bool \<Rightarrow> session \<Rightarrow> session \<times> presult" where
  "resumeProtection k ok s =
     (case protection (settings s) of
        None \<Rightarrow> (s, Rejected)
      | Some p \<Rightarrow>
          (case k of
             AwaitEquip \<Rightarrow> sneakAndScan p s
           | AwaitLookAt pos rest \<Rightarrow>
               if ok then
                 (case bot s of
                    None \<Rightarrow> (s\<lparr>protectionRunning := False\<rparr>, Finished ClientGone)
                  | Some b \<Rightarrow> (call (Dig pos) s, Suspended (AwaitDig rest)))
               else breakBlocks p rest s
           | AwaitDig rest \<Rightarrow>
               if ok \<and> 0 < jsOr (breakDelay p) 0 then (s, Suspended (AwaitBreakDelay rest))
               else breakBlocks p rest s
           | AwaitBreakDelay rest \<Rightarrow> breakBlocks p rest s
           | AwaitRescan \<Rightarrow> scanLoop p s))"

text \<open>A call whose promise nobody awaits, as in line 1134: the sequence runs up to its
  first \<^verbatim>\<open>await\<close>, and what is suspended joins the suspended sequences of the slot.\<close>

definition settle :: "session \<times> presult \<Rightarrow> session" where
  "settle r =
     (case snd r of
        Suspended k \<Rightarrow> (fst r)\<lparr>protectionTasks := protectionTasks (fst r) @ [k]\<rparr>
      | _ \<Rightarrow> fst r)"

subsection \<open>Threat detection\<close>

text \<open>
  The callback of the proximity interval, lines 1096--1153. \<open>scanEntities\<close> is the
  \<^verbatim>\<open>for\<close> loop over \<^verbatim>\<open>this.bot.entities\<close>: it ends at the end of the list
  (\<open>ScanDone\<close>), at the \<^verbatim>\<open>return\<close> of the emergency rule (\<open>EmergencyStop\<close>), or with
  the TypeError of line 1104 when \<^verbatim>\<open>this.bot\<close> has become \<^verbatim>\<open>null\<close> during the scan
  (\<open>ScanTypeError\<close>): the call of \<^verbatim>\<open>executeProtection\<close> in line 1134 runs synchronously
  up to its first \<^verbatim>\<open>await\<close>, and may reach a \<^verbatim>\<open>stop\<close> before any.
\<close>

datatype scan_end = ScanDone | EmergencyStop | ScanTypeError

text \<open>The constants of lines 1099, 1100 and 1126: \<^verbatim>\<open>alertDistance\<close>, \<^verbatim>\<open>cooldown\<close> and
  \<^verbatim>\<open>lastAlert\<close> (\<^verbatim>\<open>this.alertCooldowns.get(entity.username) || 0\<close>).\<close>

definition alertDistanceOf :: "session \<Rightarrow> real" where
  "alertDistanceOf s = jsOr (alertDistance (settings s)) 96"

definition cooldownOf :: "session \<Rightarrow> int" where
  "cooldownOf s = jsOr (alertCooldown (settings s)) 300000"

definition lastAlertOf :: "session \<Rightarrow> string \<Rightarrow> int" where
  "lastAlertOf s name = jsOr (alertCooldowns s name) 0"

text \<open>Lines 1125--1151, the alert rule for one entity at the distance computed in line
  1109: the test of the alert distance and of the cooldown, the new cooldown timestamp,
  the trigger of the protection sequence, and the start of the alert burst.\<close>

definition alertRule :: "int \<Rightarrow> entity \<Rightarrow> real \<Rightarrow> session \<Rightarrow> session" where
  "alertRule now e distance s =
     (if distance \<le> alertDistanceOf s then
        (let lastAlert = lastAlertOf s (eusername e)
         in if cooldownOf s < now - lastAlert then
              let s1 = s\<lparr>alertCooldowns := (alertCooldowns s)(eusername e \<mapsto> now)\<rparr>;
                  s2 = (if protection (settings s1) \<noteq> None \<and> protectionEnabled s1
                        then settle (executeProtection s1) else s1);
                  s3 = s2\<lparr>stats := (stats s2)
                          \<lparr>alertsTriggered := Suc (alertsTriggered (stats s2))\<rparr>\<rparr>
              in setTimer 1000 (AlertLoop (eusername e) distance 0) s3
            else s)
      else s)"

fun scanEntities :: "int \<Rightarrow> entity list \<Rightarrow> session \<Rightarrow> scan_end \<times> session" where
  "scanEntities now [] s = (ScanDone, s)"
| "scanEntities now (e # es) s =
     (case bot s of
        None \<Rightarrow> (ScanTypeError, s)
      | Some b \<Rightarrow>
          if etype e \<noteq> ''player'' \<or> eusername e = username s then scanEntities now es s
          else if toLowerCase (eusername e) \<in> set (cachedWhitelist s) then scanEntities now es s
          else
            (case (eposition e, bot_entity b) of
               (Some p, Some me) \<Rightarrow>
                 let distance = distanceTo me p
                 in if distance \<le> emergencyDistanceOf s
                       \<and> toLowerCase (eusername e) \<notin> set (cachedWhitelist s)
                    then
                      let s1 = (if onProximityAlert s
                                then call (ProximityAlert (eusername e) distance) s else s)
                      in (EmergencyStop, snd (stop (s1\<lparr>protectionRunning := False\<rparr>)))
                    else scanEntities now es (alertRule now e distance s)
             | _ \<Rightarrow> scanEntities now es s))"

definition proximityTick :: "int \<Rightarrow> session \<Rightarrow> scan_end \<times> session" where
  "proximityTick now s =
     (case bot s of
        None \<Rightarrow> (ScanDone, s)
      | Some b \<Rightarrow>
          if status s \<noteq> Online \<or> isPaused s \<or> isInLobby s then (ScanDone, s)
          else scanEntities now (bot_entities b) s)"

text \<open>The callback of the alert burst, lines 1139--1149; \<open>h\<close> is the handle of its interval
  and \<open>count\<close> the counter of the closure before the tick.\<close>

definition alertLoopTick :: "nat \<Rightarrow> string \<Rightarrow> real \<Rightarrow> nat \<Rightarrow> session \<Rightarrow> session" where
  "alertLoopTick h name distance count s =
     (let s1 = (case bot s of
                  None \<Rightarrow> s
                | Some b \<Rightarrow>
                    let s' = s\<lparr>stats := (stats s)
                               \<lparr>alertsTriggered := Suc (alertsTriggered (stats s))\<rparr>\<rparr>
                    in if onProximityAlert s' then call (ProximityAlert name distance) s' else s')
      in if 5 \<le> Suc count then clearTimer h s1
         else s1\<lparr>timers := map (\<lambda>t. if fst t = h then (h, fst (snd t), AlertLoop name distance (Suc count))
                                       else t) (timers s1)\<rparr>)"

subsection \<open>The event loop of one slot\<close>

text \<open>
  A timer with handle \<open>h\<close> fires: nothing happens unless it is pending; a timeout is
  removed before its callback runs, an interval stays. \<open>now\<close> is \<^verbatim>\<open>Date.now()\<close> and
  \<open>created\<close> the outcome of \<^verbatim>\<open>mineflayer.createBot\<close>, for the callbacks that come to
  need them. The tick of the inventory monitor (lines 1323--1376) only reads the
  inventory and reports to \<^verbatim>\<open>onInventoryAlert\<close>; it is not embedded.
\<close>

definition fire :: "nat \<Rightarrow> int \<Rightarrow> bool \<Rightarrow> session \<Rightarrow> session" where
  "fire h now created s =
     (case map_of (timers s) h of
        None \<Rightarrow> s
      | Some (delay, cb) \<Rightarrow>
          (case cb of
             AntiAfkTick \<Rightarrow> antiAfkTick s
           | JumpRelease \<Rightarrow> jumpRelease (clearTimer h s)
           | CheckFood \<Rightarrow>
               (let r = checkFood (clearTimer h s)
                in if fst r then (snd r)\<lparr>eatTasks := Suc (eatTasks (snd r))\<rparr> else snd r)
           | ProximityTick \<Rightarrow> snd (proximityTick now s)
           | AlertLoop name distance count \<Rightarrow> alertLoopTick h name distance count s
           | InventoryTick \<Rightarrow> s
           | LobbyFirstTry \<Rightarrow> lobbyFirstTry (clearTimer h s)
           | LobbyRetry \<Rightarrow> lobbyRetry s
           | ReconnectFire \<Rightarrow> reconnectFire created (clearTimer h s)
           | RestartFire \<Rightarrow> restartFire created (clearTimer h s)
           | TeleportCheck \<Rightarrow> teleportCheck (clearTimer h s)
           | ReturnCheck \<Rightarrow> returnCheck (clearTimer h s)))"

text \<open>
  What can happen to a slot: a command of the operator, an event of the client, a timer
  firing, the race of a suspended \<^verbatim>\<open>checkFood\<close> or the promise of a suspended protection
  sequence being settled, and the client's view of the world changing.
\<close>

datatype event =
    OpStart bool
  | OpStop
  | OpRestart
  | OpPause
  | OpResume
  | OpToggleProtection "bool option"
  | OpSendChat string
  | Login int
  | Spawn
  | End int
  | KickedEv string
  | ErrorEv
  | MessageStr string
  | Fire nat int bool
  | EatSettled eat_outcome
  | ProtectionSettled nat bool
  | World client

definition step :: "event \<Rightarrow> session \<Rightarrow> session" where
  "step ev s =
     (case ev of
        OpStart created \<Rightarrow> snd (start created s)
      | OpStop \<Rightarrow> snd (stop s)
      | OpRestart \<Rightarrow> snd (restart s)
      | OpPause \<Rightarrow> snd (pause s)
      | OpResume \<Rightarrow> snd (resume s)
      | OpToggleProtection forceState \<Rightarrow> snd (toggleProtection forceState s)
      | OpSendChat message \<Rightarrow> snd (sendChat message s)
      | Login now \<Rightarrow> snd (onLogin now s)
      | Spawn \<Rightarrow> snd (onSpawn s)
      | End now \<Rightarrow> onEnd now s
      | KickedEv reasonStr \<Rightarrow> onKicked reasonStr s
      | ErrorEv \<Rightarrow> onError s
      | MessageStr message \<Rightarrow> onMessage message s
      | Fire h now created \<Rightarrow> fire h now created s
      | EatSettled outcome \<Rightarrow>
          (if 0 < eatTasks s then checkFoodResume outcome (s\<lparr>eatTasks := eatTasks s - 1\<rparr>)
           else s)
      | ProtectionSettled i ok \<Rightarrow>
          (if i < length (protectionTasks s)
           then settle (resumeProtection (protectionTasks s ! i) ok
                          (s\<lparr>protectionTasks := take i (protectionTasks s)
                                                  @ drop (Suc i) (protectionTasks s)\<rparr>))
           else s)
      | World c \<Rightarrow> (case bot s of None \<Rightarrow> s | Some b \<Rightarrow> s\<lparr>bot := Some c\<rparr>))"

fun run :: "event list \<Rightarrow> session \<Rightarrow> session" where
  "run [] s = s"
| "run (ev # evs) s = run evs (step ev s)"

subsection \<open>The third declaration: threat detection\<close>

text \<open>
  The claim about the emergency rule also cites the tick of the third declaration, lines
  1827--1895. It differs from the second: there is no lobby mode, the whitelist is read
  from the configuration at every entity, \<^verbatim>\<open>this.bot\<close> is first dereferenced at line 1846,
  after the filters, and the emergency rule carries the conjunct
  \<^verbatim>\<open>this.config.settings.protection?.enabled\<close>. Its \<^verbatim>\<open>cleanup\<close> (lines 2175--2191),
  \<^verbatim>\<open>stop\<close> (2004--2017) and the part of \<^verbatim>\<open>executeProtection\<close> (1898--1975) up to the first
  \<^verbatim>\<open>await\<close> follow; the resumption of that sequence is not embedded.
\<close>

definition cleanup_decl3 :: "session \<Rightarrow> session" where
  "cleanup_decl3 s =
     (let s1 = (clearTracked (antiAfkInterval s) s)\<lparr>antiAfkInterval := None\<rparr>;
          s2 = (clearTracked (proximityInterval s1) s1)\<lparr>proximityInterval := None\<rparr>;
          s3 = (clearTracked (autoEatInterval s2) s2)\<lparr>autoEatInterval := None\<rparr>
      in s3\<lparr>bot := None, status := Offline\<rparr>)"

definition stop_decl3 :: "session \<Rightarrow> bool \<times> session" where
  "stop_decl3 s =
     (case bot s of
        None \<Rightarrow> (False, s)
      | Some b \<Rightarrow> (True, cleanup_decl3 (call Quit (s\<lparr>isManuallyStopped := True\<rparr>))))"

text \<open>Lines 1942--1974: the loop over the blocks up to the first \<^verbatim>\<open>await\<close>, and the code
  after it.\<close>

fun breakBlocks_decl3 :: "vec3 list \<Rightarrow> session \<Rightarrow> session \<times> presult" where
  "breakBlocks_decl3 [] s =
     (case bot s of
        None \<Rightarrow> (s, Rejected)
      | Some b \<Rightarrow>
          (snd (stop_decl3 (call (SetControlState ''sneak'' False) s)), Finished AfterLoop))"
| "breakBlocks_decl3 (pos # rest) s =
     (case bot s of
        None \<Rightarrow> (s, Finished ClientGone)
      | Some b \<Rightarrow>
          (case map_of (blockAt b) pos of
             None \<Rightarrow> breakBlocks_decl3 rest s
           | Some name \<Rightarrow> (call (LookAt pos) s, Suspended (AwaitLookAt pos rest))))"

definition executeProtection_decl3 :: "session \<Rightarrow> session \<times> presult" where
  "executeProtection_decl3 s =
     (case bot s of
        None \<Rightarrow> (s, Skipped)
      | Some b \<Rightarrow>
          if status s \<noteq> Online then (s, Skipped)
          else
            (case protection (settings s) of
               None \<Rightarrow> (s, Rejected)
             | Some p \<Rightarrow>
                 if findBlocks b = [] then (snd (stop_decl3 s), Finished AfterLoop)
                 else
                   (case find (\<lambda>i. str_includes (iname i) ''pickaxe'') (inventory_items b) of
                      Some pickaxe \<Rightarrow> (call (Equip (iname pickaxe)) s, Suspended AwaitEquip)
                    | None \<Rightarrow>
                        breakBlocks_decl3 (findBlocks b)
                          (call (SetControlState ''sneak'' True) s))))"

definition protectionConfigured :: "session \<Rightarrow> bool" where
  "protectionConfigured s = (case protection (settings s) of Some p \<Rightarrow> enabled p | None \<Rightarrow> False)"

text \<open>Lines 1871--1893, the alert rule of the third declaration.\<close>

definition alertRule_decl3 :: "int \<Rightarrow> entity \<Rightarrow> real \<Rightarrow> session \<Rightarrow> session" where
  "alertRule_decl3 now e distance s =
     (if distance \<le> alertDistanceOf s then
        (let lastAlert = lastAlertOf s (eusername e)
         in if cooldownOf s < now - lastAlert then
              let s1 = s\<lparr>alertCooldowns := (alertCooldowns s)(eusername e \<mapsto> now)\<rparr>;
                  s2 = (if protectionConfigured s1
                        then settle (executeProtection_decl3 s1) else s1)
              in setTimer 1000 (AlertLoop (eusername e) distance 0) s2
            else s)
      else s)"

fun scanEntities_decl3 :: "int \<Rightarrow> entity list \<Rightarrow> session \<Rightarrow> scan_end \<times> session" where
  "scanEntities_decl3 now [] s = (ScanDone, s)"
| "scanEntities_decl3 now (e # es) s =
     (if etype e \<noteq> ''player'' \<or> eusername e = username s then scanEntities_decl3 now es s
      else if (case alertWhitelist (settings s) of
                 Some w \<Rightarrow> toLowerCase (eusername e) \<in> set (map toLowerCase w)
               | None \<Rightarrow> False)
      then scanEntities_decl3 now es s
      else
        (case eposition e of
           None \<Rightarrow> scanEntities_decl3 now es s
         | Some p \<Rightarrow>
             (case bot s of
                None \<Rightarrow> (ScanTypeError, s)
              | Some b \<Rightarrow>
                  (case bot_entity b of
                     None \<Rightarrow> scanEntities_decl3 now es s
                   | Some me \<Rightarrow>
                       let distance = distanceTo me p
                       in if distance \<le> emergencyDistanceOf s \<and> protectionConfigured s
                          then
                            let s1 = (if onProximityAlert s
                                      then call (ProximityAlert (eusername e) distance) s else s)
                            in (EmergencyStop, snd (stop_decl3 s1))
                          else scanEntities_decl3 now es
                                 (alertRule_decl3 now e distance s)))))"

definition proximityTick_decl3 :: "int \<Rightarrow> session \<Rightarrow> scan_end \<times> session" where
  "proximityTick_decl3 now s =
     (case bot s of
        None \<Rightarrow> (ScanDone, s)
      | Some b \<Rightarrow>
          if status s \<noteq> Online \<or> isPaused s then (ScanDone, s)
          else scanEntities_decl3 now (bot_entities b) s)"

section \<open>Notions used in the statements\<close>

text \<open>
  An entity the scan of the second declaration does not skip (lines 1105--1106): a player,
  not the slot's own identity, not on the cached whitelist. \<open>candidate_decl3\<close> is the same
  for the third declaration (lines 1837--1843), which reads the whitelist from the
  configuration.
\<close>

definition candidate :: "session \<Rightarrow> entity \<Rightarrow> bool" where
  "candidate s e =
     (etype e = ''player'' \<and> eusername e \<noteq> username s
      \<and> toLowerCase (eusername e) \<notin> set (cachedWhitelist s))"

definition candidate_decl3 :: "session \<Rightarrow> entity \<Rightarrow> bool" where
  "candidate_decl3 s e =
     (etype e = ''player'' \<and> eusername e \<noteq> username s
      \<and> (case alertWhitelist (settings s) of
            Some w \<Rightarrow> toLowerCase (eusername e) \<notin> set (map toLowerCase w)
          | None \<Rightarrow> True))"

definition threatAmong_decl3 :: "session \<Rightarrow> vec3 \<Rightarrow> entity list \<Rightarrow> bool" where
  "threatAmong_decl3 s me es =
     (\<exists>e\<in>set es. candidate_decl3 s e
        \<and> (\<exists>p. eposition e = Some p \<and> distanceTo me p \<le> emergencyDistanceOf s))"

text \<open>
  What a scan \<open>r\<close> of the entities \<open>es\<close> from the session \<open>s\<close> has done when the
  emergency rule has taken effect: the slot is stopped (no client, phase 'offline',
  manual-stop flag set) and \<^verbatim>\<open>quit\<close> was the last call; the scan did not run to its end;
  if it ended with the TypeError, a protection sequence was triggered (policy configured
  and enabled); if it ended at the \<^verbatim>\<open>return\<close> of the emergency rule, then some candidate
  of \<open>es\<close> within the emergency distance was reported to the alert callback, if one is
  registered, right before the \<^verbatim>\<open>quit\<close>.
\<close>

definition emergencyOutcome :: "session \<Rightarrow> vec3 \<Rightarrow> entity list \<Rightarrow> scan_end \<times> session \<Rightarrow> bool" where
  "emergencyOutcome s me es r =
     (bot (snd r) = None \<and> status (snd r) = Offline \<and> isManuallyStopped (snd r)
      \<and> fst r \<noteq> ScanDone
      \<and> (\<exists>cs. calls (snd r) = calls s @ cs @ [Quit])
      \<and> (fst r = ScanTypeError \<longrightarrow> protection (settings s) \<noteq> None \<and> protectionEnabled s)
      \<and> (fst r = EmergencyStop \<longrightarrow>
           (\<exists>e\<in>set es. \<exists>p cs. candidate s e \<and> eposition e = Some p
               \<and> distanceTo me p \<le> emergencyDistanceOf s
               \<and> calls (snd r) =
                   calls s @ cs
                   @ (if onProximityAlert s
                      then [ProximityAlert (eusername e) (distanceTo me p)] else [])
                   @ [Quit])))"

definition emergencyOutcome_decl3 ::
    "session \<Rightarrow> vec3 \<Rightarrow> entity list \<Rightarrow> scan_end \<times> session \<Rightarrow> bool" where
  "emergencyOutcome_decl3 s me es r =
     (bot (snd r) = None \<and> status (snd r) = Offline \<and> isManuallyStopped (snd r)
      \<and> fst r \<noteq> ScanDone
      \<and> (\<exists>cs. calls (snd r) = calls s @ cs @ [Quit])
      \<and> (fst r = EmergencyStop \<longrightarrow>
           (\<exists>e\<in>set es. \<exists>p cs. candidate_decl3 s e \<and> eposition e = Some p
               \<and> distanceTo me p \<le> emergencyDistanceOf s
               \<and> calls (snd r) =
                   calls s @ cs
                   @ (if onProximityAlert s
                      then [ProximityAlert (eusername e) (distanceTo me p)] else [])
                   @ [Quit])))"


text \<open>
  What a run \<open>r\<close> of the protection sequence from the session \<open>s\<close> (a call or a
  resumption, up to the next \<^verbatim>\<open>await\<close> or to the end) has done when it ended:
  through the code after the loop, the slot is stopped, the guard is cleared, and with a
  client held at the start the last two calls are the release of the sneak control and
  \<^verbatim>\<open>quit\<close>, while without one nothing is called; at the threat branch, the slot is
  stopped, the guard is cleared, \<^verbatim>\<open>quit\<close> is the last call and the sneak control is not
  released; at a \<^verbatim>\<open>return\<close> on a missing client, only the guard is cleared.
\<close>

definition exits :: "session \<Rightarrow> session \<times> presult \<Rightarrow> bool" where
  "exits s r =
     ((snd r = Finished AfterLoop \<longrightarrow>
         bot (fst r) = None \<and> status (fst r) = Offline \<and> isManuallyStopped (fst r)
         \<and> \<not> protectionRunning (fst r)
         \<and> (if bot s = None then calls (fst r) = calls s
             else \<exists>cs. calls (fst r) = calls s @ cs @ [SetControlState ''sneak'' False, Quit]))
      \<and> (snd r = Finished Threat \<longrightarrow>
         bot s \<noteq> None
         \<and> bot (fst r) = None \<and> status (fst r) = Offline \<and> isManuallyStopped (fst r)
         \<and> \<not> protectionRunning (fst r)
         \<and> (\<exists>cs. calls (fst r) = calls s @ cs @ [Quit]
                  \<and> SetControlState ''sneak'' False \<notin> set cs))
      \<and> (snd r = Finished ClientGone \<longrightarrow>
         bot s = None \<and> fst r = s\<lparr>protectionRunning := False\<rparr>))"

text \<open>The events by which the operator starts the slot: \<^verbatim>\<open>start\<close> and \<^verbatim>\<open>restart\<close>.\<close>

fun operatorStart :: "event \<Rightarrow> bool" where
  "operatorStart (OpStart created) = True"
| "operatorStart OpRestart = True"
| "operatorStart ev = False"

text \<open>
  Notions of the proofs. \<open>protCall\<close>: the calls a protection sequence makes to the
  client besides \<^verbatim>\<open>quit\<close>. \<open>mark\<close>: a session with the guard set to \<open>g\<close> and the calls
  \<open>cs\<close> appended. \<open>protShape\<close>: what a run of the protection sequence makes of a
  session, a \<open>mark\<close> or the \<^verbatim>\<open>stop\<close> of one (\<open>protShape_decl3\<close> for the third
  declaration). \<open>sameSlot\<close>: the fields a scan reads and never writes are equal.
  \<open>halted\<close>: a stopped slot without client and without a pending restart. \<open>quiet\<close>:
  from a halted slot to a halted slot, with no client created and no reconnect timer
  added.
\<close>

fun protCall :: "call \<Rightarrow> bool" where
  "protCall (SetControlState n v) = True"
| "protCall (Equip n) = True"
| "protCall (LookAt p) = True"
| "protCall (Dig p) = True"
| "protCall c = False"

definition mark :: "bool \<Rightarrow> call list \<Rightarrow> session \<Rightarrow> session" where
  "mark g cs s = s\<lparr>protectionRunning := g, calls := calls s @ cs\<rparr>"

definition protShape :: "session \<Rightarrow> session \<Rightarrow> bool" where
  "protShape s s' =
     (\<exists>g cs. list_all protCall cs \<and> (s' = mark g cs s \<or> s' = snd (stop (mark False cs s))))"

definition protShape_decl3 :: "session \<Rightarrow> session \<Rightarrow> bool" where
  "protShape_decl3 s s' =
     (\<exists>cs. list_all protCall cs
        \<and> (s' = s\<lparr>calls := calls s @ cs\<rparr>
           \<or> (bot s \<noteq> None \<and> s' = snd (stop_decl3 (s\<lparr>calls := calls s @ cs\<rparr>)))))"

definition sameSlot :: "session \<Rightarrow> session \<Rightarrow> bool" where
  "sameSlot s s' =
     (settings s' = settings s \<and> username s' = username s
      \<and> cachedWhitelist s' = cachedWhitelist s \<and> onProximityAlert s' = onProximityAlert s
      \<and> protectionEnabled s' = protectionEnabled s)"

definition halted :: "session \<Rightarrow> bool" where
  "halted s =
     (isManuallyStopped s \<and> bot s = None
      \<and> (\<forall>t\<in>set (timers s). snd (snd t) \<noteq> RestartFire))"

definition quiet :: "session \<Rightarrow> session \<Rightarrow> bool" where
  "quiet s s' =
     (halted s'
      \<and> (\<exists>cs. calls s' = calls s @ cs \<and> CreateBot \<notin> set cs)
      \<and> (\<forall>t\<in>set (timers s'). snd (snd t) = ReconnectFire \<longrightarrow> t \<in> set (timers s)))"

section \<open>Example sessions and runs\<close>

text \<open>A configuration with every background loop enabled, three reconnect attempts and
  the defaults of the class for the distances, and a slot registered with its callbacks
  as \<^verbatim>\<open>BotManager.initialize\<close> registers them.\<close>

definition exampleSettings :: settings where
  "exampleSettings =
     \<lparr>antiAfkEnabled = True, antiAfkIntervalMs = None, proximityAlertEnabled = True,
      autoReconnect = True, maxReconnectAttempts = Some 3, reconnectDelay = Some 5000,
      alertDistance = None, alertCooldown = None, alertWhitelist = Some [''Friend''],
      protection = Some \<lparr>enabled = True, emergencyDistance = None, blockType = None,
                          radius = None, breakDelay = None\<rparr>\<rparr>"

definition exampleSession :: session where
  "exampleSession =
     (newSession exampleSettings ''afk_bot'' None)
       \<lparr>onProximityAlert := True, onLobbyDetected := True, onConnect := True\<rparr>"

text \<open>The slot after \<^verbatim>\<open>start\<close> and the client's 'login'.\<close>

definition onlineSession :: session where
  "onlineSession = snd (onLogin 500 (snd (start True exampleSession)))"

text \<open>The slot as the last refused reconnect leaves it: no client, phase 'failed'.\<close>

definition failedSession :: session where
  "failedSession = exampleSession\<lparr>status := Failed, reconnectAttempts := 3\<rparr>"

text \<open>Three connections that end before any login, each but the first opened by the
  reconnect timer set at the end of the one before; and the same with a fourth.\<close>

definition threeDisconnects :: "event list" where
  "threeDisconnects =
     [OpStart True, End 1000, Fire 0 6000 True, End 7000, Fire 1 12000 True, End 13000]"

definition fourDisconnects :: "event list" where
  "fourDisconnects = threeDisconnects @ [Fire 2 18000 True, End 19000]"

text \<open>A hungry slot with bread in its inventory, whose equip-and-consume runs into the
  timeout three times in a row; then a fourth time; or then succeeds.\<close>

definition hungryClient :: client where
  "hungryClient =
     newClient\<lparr>bot_entity := Some (0, 64, 0), bot_food := 10,
       inventory_items := [\<lparr>iname = ''cobblestone'', icount = 64\<rparr>,
                           \<lparr>iname = ''bread'', icount = 5\<rparr>],
       emptySlotCount := 34\<rparr>"

definition eatTimeout :: event where
  "eatTimeout = EatSettled (EatError ''Eat operation timed out'')"

definition threeEatTimeouts :: "event list" where
  "threeEatTimeouts =
     [World hungryClient, Fire 2 5500 True, eatTimeout, Fire 4 35500 True, eatTimeout,
      Fire 5 65500 True, eatTimeout]"

definition fourEatTimeouts :: "event list" where
  "fourEatTimeouts = threeEatTimeouts @ [Fire 6 95500 True, eatTimeout]"

definition eatenAfterTimeouts :: "event list" where
  "eatenAfterTimeouts = threeEatTimeouts @ [Fire 6 95500 True, EatSettled Eaten]"

text \<open>A slot that spawns at home, is moved 4900 blocks away, and comes back to 10 blocks
  from home.\<close>

definition homeClient :: client where
  "homeClient = newClient\<lparr>bot_entity := Some (100, 64, 100)\<rparr>"

definition lobbyClient :: client where
  "lobbyClient = newClient\<lparr>bot_entity := Some (5000, 64, 100)\<rparr>"

definition backClient :: client where
  "backClient = newClient\<lparr>bot_entity := Some (110, 64, 100)\<rparr>"

definition movedAway :: session where
  "movedAway = run [World homeClient, Spawn, World lobbyClient] onlineSession"

definition movedBack :: session where
  "movedBack = run [Spawn, World backClient] movedAway"

text \<open>The online slot spawns at home; the client reports a second 'login' on the same
  connection; then the slot spawns 4900 blocks away.\<close>

definition secondLogin :: "event list" where
  "secondLogin = [World homeClient, Spawn, Login 600, World lobbyClient, Spawn]"

text \<open>
  Worlds around the slot, which stands at (0, 64, 0): the slot's own entity and the player
  'Intruder' at distance \<open>x\<close>; the same with two spawners in reach and room in the
  inventory; the same with a pickaxe in the inventory.
\<close>

definition selfEntity :: entity where
  "selfEntity = \<lparr>etype = ''player'', eusername = ''afk_bot'', eposition = Some (0, 64, 0)\<rparr>"

definition intruderAt :: "real \<Rightarrow> entity" where
  "intruderAt x = \<lparr>etype = ''player'', eusername = ''Intruder'', eposition = Some (x, 64, 0)\<rparr>"

definition watchClient :: "real \<Rightarrow> client" where
  "watchClient x =
     newClient\<lparr>bot_entity := Some (0, 64, 0), bot_entities := [selfEntity, intruderAt x]\<rparr>"

definition spawnerClient :: "real \<Rightarrow> client" where
  "spawnerClient x =
     (watchClient x)\<lparr>emptySlotCount := 30, findBlocks := [(2, 64, 2), (3, 64, 3)],
       blockAt := [((2, 64, 2), ''spawner''), ((3, 64, 3), ''spawner'')]\<rparr>"

definition pickaxeClient :: "real \<Rightarrow> client" where
  "pickaxeClient x =
     (spawnerClient x)\<lparr>inventory_items := [\<lparr>iname = ''diamond_pickaxe'', icount = 1\<rparr>]\<rparr>"

definition tickTime :: int where
  "tickTime = 1700000000000"

text \<open>The online slot with the intruder 5 blocks away; and the same slot under a
  configuration whose protection policy is disabled.\<close>

definition threatenedSession :: session where
  "threatenedSession = run [World (watchClient 5)] onlineSession"

definition unprotectedSettings :: settings where
  "unprotectedSettings =
     exampleSettings\<lparr>protection := Some \<lparr>enabled = False, emergencyDistance = None,
        blockType = None, radius = None, breakDelay = None\<rparr>\<rparr>"

definition unprotectedSession :: session where
  "unprotectedSession = threatenedSession\<lparr>settings := unprotectedSettings\<rparr>"




text \<open>
  Runs of the protection sequence on the online slot. The intruder at 50 blocks triggers
  it; without a pickaxe it looks at the first spawner and digs it. In the first run the
  intruder then comes to 5 blocks before the dig is done. In the second the connection
  ends while the sequence waits for \<^verbatim>\<open>lookAt\<close>. In the third the slot has a pickaxe, and
  the connection ends while the sequence waits for \<^verbatim>\<open>equip\<close>, which is then rejected;
  the fourth continues the third with the reconnect, the login and a tick more than one
  cooldown later.
\<close>

definition threatDuringProtection :: "event list" where
  "threatDuringProtection =
     [World (spawnerClient 50), Fire 1 tickTime True, ProtectionSettled 0 True,
      World (spawnerClient 5), ProtectionSettled 0 True]"

definition connectionLostDuringProtection :: "event list" where
  "connectionLostDuringProtection =
     [World (spawnerClient 50), Fire 1 tickTime True, End (tickTime + 500),
      ProtectionSettled 0 True]"

definition lostDuringEquip :: "event list" where
  "lostDuringEquip =
     [World (pickaxeClient 50), Fire 1 tickTime True, End (tickTime + 200),
      ProtectionSettled 0 False]"

definition laterTrigger :: "event list" where
  "laterTrigger =
     lostDuringEquip
     @ [Fire 5 (tickTime + 5200) True, Login (tickTime + 6000), World (pickaxeClient 50),
        Fire 7 (tickTime + 400000) True]"

text \<open>
  The operator starts the slot again while a reconnect timer is pending, and the new
  connection ends too: two reconnect timers are pending, and the slot holds the handle of
  the second. Then the operator stops the slot. After the stop: the first timer fires, a
  connection reports its end, a stale login arrives, the handle of the second timer
  fires, the operator resumes and sends a chat line, and a kick is reported.
\<close>

definition pendingReconnects :: "event list" where
  "pendingReconnects = [OpStart True, End 1000, OpStart True, End 2000]"

definition orphanRun :: "event list" where
  "orphanRun = pendingReconnects @ [OpStop]"

definition afterStop :: "event list" where
  "afterStop =
     [Fire 0 6000 True, End 7000, Login 7500, Fire 1 8000 True, OpResume, OpSendChat ''hello'',
      KickedEv ''already online'']"

text \<open>The operator restarts the online slot and stops it before the two seconds of the
  restart are over; then the timer of the restart fires.\<close>

definition restartThenStop :: "event list" where
  "restartThenStop = [OpRestart, OpStop, Fire 4 3000 True]"

section \<open>Properties\<close>

subsection \<open>Normal forms of cleanup and stop\<close>

lemma clearTracked_alt:
  "clearTracked h s = s\<lparr>timers := filter (\<lambda>t. Some (fst t) \<noteq> h) (timers s)\<rparr>"
  by (cases h) (simp_all add: clearTracked_def clearTimer_def)

lemma cleanup_alt:
  "cleanup s =
     s\<lparr>timers := filter (\<lambda>t. Some (fst t) \<noteq> antiAfkInterval s
                           \<and> Some (fst t) \<noteq> proximityInterval s
                           \<and> Some (fst t) \<noteq> autoEatTimeout s
                           \<and> Some (fst t) \<noteq> inventoryMonitorInterval s
                           \<and> Some (fst t) \<noteq> lobbyRetryInterval s) (timers s),
       antiAfkInterval := None, proximityInterval := None, autoEatTimeout := None,
       inventoryMonitorInterval := None, lobbyRetryInterval := None,
       isInLobby := False, bot := None, status := Offline\<rparr>"
  by (simp add: cleanup_def stopLobbyRetry_def clearTracked_alt Let_def
        conj_commute conj_left_commute)

lemma cleanup_decl1_alt:
  "cleanup_decl1 s =
     s\<lparr>timers := filter (\<lambda>t. Some (fst t) \<noteq> antiAfkInterval s
                           \<and> Some (fst t) \<noteq> proximityInterval s
                           \<and> Some (fst t) \<noteq> autoEatTimeout s
                           \<and> Some (fst t) \<noteq> lobbyRetryInterval s) (timers s),
       antiAfkInterval := None, proximityInterval := None, autoEatTimeout := None,
       lobbyRetryInterval := None,
       isInLobby := False, bot := None, status := Offline\<rparr>"
  by (simp add: cleanup_decl1_def stopLobbyRetry_def clearTracked_alt Let_def
        conj_commute conj_left_commute)

lemma stop_alt:
  "snd (stop s) =
     s\<lparr>isManuallyStopped := True,
       timers := filter (\<lambda>t. Some (fst t) \<noteq> reconnectTimeout s
                           \<and> Some (fst t) \<noteq> antiAfkInterval s
                           \<and> Some (fst t) \<noteq> proximityInterval s
                           \<and> Some (fst t) \<noteq> autoEatTimeout s
                           \<and> Some (fst t) \<noteq> inventoryMonitorInterval s
                           \<and> Some (fst t) \<noteq> lobbyRetryInterval s) (timers s),
       reconnectTimeout := None,
       calls := (if bot s = None then calls s else calls s @ [Quit]),
       antiAfkInterval := None, proximityInterval := None, autoEatTimeout := None,
       inventoryMonitorInterval := None, lobbyRetryInterval := None,
       isInLobby := False, bot := None, status := Offline\<rparr>"
  by (cases "bot s")
     (simp_all add: stop_def cleanup_alt clearTracked_alt call_def Let_def
        conj_commute conj_left_commute)

lemma stop_returns_true: "fst (stop s)"
  by (simp add: stop_def Let_def)

lemma stop_twice: "stop (snd (stop s)) = (True, snd (stop s))"
proof -
  have "snd (stop (snd (stop s))) = snd (stop s)"
    by (simp add: stop_alt [of "snd (stop s)"]) (simp add: stop_alt)
  with stop_returns_true [of "snd (stop s)"] show ?thesis
    by (metis prod.collapse)
qed

lemmas example_defs =
  exampleSession_def exampleSettings_def newSession_def onlineSession_def failedSession_def

lemmas timer_defs = setTimer_def clearTimer_def call_def jsOr_def Let_def

lemma onlineSession_bot: "bot onlineSession = Some newClient"
  by (simp add: example_defs onLogin_def start_def timer_defs startInventoryMonitor_def
        startAutoEat_def startProximityCheck_def startAntiAfk_def clearTracked_alt)

lemma failedSession_bot: "bot failedSession = None"
  by (simp add: example_defs)

subsection \<open>toggleProtection\<close>

text \<open>
  Claim C10. From every session state, \<^verbatim>\<open>toggleProtection()\<close> without an argument negates
  \<^verbatim>\<open>protectionEnabled\<close> and returns the new value, \<^verbatim>\<open>toggleProtection(b)\<close> with a boolean
  sets it to \<open>b\<close> and returns \<open>b\<close>; no other field changes, so two calls without an
  argument give back the session they started from.
\<close>

theorem toggleProtection_negates_or_sets:
  "toggleProtection None s = (\<not> protectionEnabled s, s\<lparr>protectionEnabled := \<not> protectionEnabled s\<rparr>)
   \<and> toggleProtection (Some b) s = (b, s\<lparr>protectionEnabled := b\<rparr>)
   \<and> snd (toggleProtection None (snd (toggleProtection None s))) = s"
  by (simp add: toggleProtection_def)

subsection \<open>stop is idempotent\<close>

text \<open>
  Claim C4, as amended. In the second declaration of the class \<^verbatim>\<open>stop()\<close> is idempotent
  from every session state, with or without a client: it returns \<^verbatim>\<open>true\<close>, leaves the
  phase 'offline', and a second call returns \<^verbatim>\<open>true\<close> again and changes nothing. In the
  first declaration \<^verbatim>\<open>stop()\<close> without a client returns \<^verbatim>\<open>false\<close> and changes nothing,
  whatever the phase is; with a client it returns \<^verbatim>\<open>true\<close> and leaves the phase
  'offline', and the second call returns \<^verbatim>\<open>false\<close>.
\<close>

theorem stop_idempotent:
  "fst (stop s) \<and> status (snd (stop s)) = Offline \<and> stop (snd (stop s)) = (True, snd (stop s))
   \<and> (bot s = None \<longrightarrow> stop_decl1 s = (False, s))
   \<and> (bot s \<noteq> None \<longrightarrow>
         fst (stop_decl1 s) \<and> status (snd (stop_decl1 s)) = Offline
         \<and> stop_decl1 (snd (stop_decl1 s)) = (False, snd (stop_decl1 s)))"
proof -
  have second: "fst (stop s)" "status (snd (stop s)) = Offline"
    by (simp_all add: stop_alt stop_returns_true)
  have first_idle: "bot s = None \<longrightarrow> stop_decl1 s = (False, s)"
    by (simp add: stop_decl1_def)
  have first_held: "bot s \<noteq> None \<longrightarrow>
         fst (stop_decl1 s) \<and> status (snd (stop_decl1 s)) = Offline
         \<and> stop_decl1 (snd (stop_decl1 s)) = (False, snd (stop_decl1 s))"
    by (auto simp add: stop_decl1_def cleanup_decl1_alt)
  from second first_idle first_held stop_twice show ?thesis by blast
qed

theorem stop_idempotent_witness:
  "stop (snd (stop onlineSession)) = (True, snd (stop onlineSession))
   \<and> status (snd (stop failedSession)) = Offline
   \<and> stop_decl1 failedSession = (False, failedSession)
   \<and> fst (stop_decl1 onlineSession)
   \<and> stop_decl1 (snd (stop_decl1 onlineSession)) = (False, snd (stop_decl1 onlineSession))"
  using stop_idempotent [of failedSession] stop_idempotent [of onlineSession]
    failedSession_bot onlineSession_bot
  by simp

text \<open>The claim as stated fails in the first declaration: on the slot left without a
  client in phase 'failed', \<^verbatim>\<open>stop()\<close> returns \<^verbatim>\<open>false\<close> and the phase stays 'failed'.\<close>

theorem stop_decl1_counterexample:
  "bot failedSession = None \<and> \<not> fst (stop_decl1 failedSession)
   \<and> status (snd (stop_decl1 failedSession)) = Failed"
  by (simp add: stop_decl1_def example_defs)

subsection \<open>Reconnect scheduling\<close>

lemmas reconnect_run_defs =
  step_def start_def onEnd_def cleanup_alt handleReconnect_def fire_def reconnectFire_def
  timer_defs example_defs threeDisconnects_def fourDisconnects_def

lemma three_disconnects:
  "status (run threeDisconnects exampleSession) = Offline
   \<and> reconnectAttempts (run threeDisconnects exampleSession) = 3
   \<and> timers (run threeDisconnects exampleSession) = [(2, 5000, ReconnectFire)]"
  by (simp add: reconnect_run_defs)

lemma four_disconnects:
  "status (run fourDisconnects exampleSession) = Failed
   \<and> reconnectAttempts (run fourDisconnects exampleSession) = 3
   \<and> timers (run fourDisconnects exampleSession) = []"
  by (simp add: reconnect_run_defs)

text \<open>
  Claim C3, as amended. Whenever the handler of 'end' runs with auto-reconnect enabled,
  not paused and not manually stopped: if \<^verbatim>\<open>reconnectAttempts >= maxReconnectAttempts\<close>
  the phase becomes 'failed', the counter stays and no timer is added; otherwise the
  phase is 'offline', the counter is incremented and one reconnect timer is added, whose
  delay is the one-shot override if set, else the configured delay, else 5000 ms, whatever
  the counter is. With \<^verbatim>\<open>maxReconnectAttempts = 3\<close>, three consecutive disconnects leave
  the phase 'offline' with \<^verbatim>\<open>reconnectAttempts = 3\<close> and the third attempt scheduled; the
  fourth consecutive disconnect ends in phase 'failed' with \<^verbatim>\<open>reconnectAttempts = 3\<close>
  and nothing scheduled.
\<close>

theorem reconnect_scheduling:
  assumes "autoReconnect (settings s)" and "\<not> isPaused s" and "\<not> isManuallyStopped s"
  shows
    "(if (case maxReconnectAttempts (settings s) of
            Some m \<Rightarrow> m \<le> reconnectAttempts s | None \<Rightarrow> False)
      then status (onEnd now s) = Failed
           \<and> reconnectAttempts (onEnd now s) = reconnectAttempts s
           \<and> timers (onEnd now s) = timers (cleanup s)
           \<and> reconnectTimeout (onEnd now s) = reconnectTimeout s
      else status (onEnd now s) = Offline
           \<and> reconnectAttempts (onEnd now s) = Suc (reconnectAttempts s)
           \<and> timers (onEnd now s) =
               timers (cleanup s)
               @ [(nextTimer s,
                   jsOr (tempReconnectDelay s) (jsOr (reconnectDelay (settings s)) 5000),
                   ReconnectFire)]
           \<and> reconnectTimeout (onEnd now s) = Some (nextTimer s)
           \<and> tempReconnectDelay (onEnd now s) = None)
     \<and> status (run threeDisconnects exampleSession) = Offline
     \<and> reconnectAttempts (run threeDisconnects exampleSession) = 3
     \<and> timers (run threeDisconnects exampleSession) = [(2, 5000, ReconnectFire)]
     \<and> status (run fourDisconnects exampleSession) = Failed
     \<and> reconnectAttempts (run fourDisconnects exampleSession) = 3
     \<and> timers (run fourDisconnects exampleSession) = []"
proof -
  have "if (case maxReconnectAttempts (settings s) of
              Some m \<Rightarrow> m \<le> reconnectAttempts s | None \<Rightarrow> False)
        then status (onEnd now s) = Failed
             \<and> reconnectAttempts (onEnd now s) = reconnectAttempts s
             \<and> timers (onEnd now s) = timers (cleanup s)
             \<and> reconnectTimeout (onEnd now s) = reconnectTimeout s
        else status (onEnd now s) = Offline
             \<and> reconnectAttempts (onEnd now s) = Suc (reconnectAttempts s)
             \<and> timers (onEnd now s) =
                 timers (cleanup s)
                 @ [(nextTimer s,
                     jsOr (tempReconnectDelay s) (jsOr (reconnectDelay (settings s)) 5000),
                     ReconnectFire)]
             \<and> reconnectTimeout (onEnd now s) = Some (nextTimer s)
             \<and> tempReconnectDelay (onEnd now s) = None"
    using assms
    by (simp add: onEnd_def handleReconnect_def cleanup_alt setTimer_def Let_def
          split: option.splits)
  with three_disconnects four_disconnects show ?thesis by simp
qed

theorem reconnect_scheduling_witness:
  "status (onEnd 1000 exampleSession) = Offline
   \<and> reconnectAttempts (onEnd 1000 exampleSession) = 1
   \<and> timers (onEnd 1000 exampleSession) = [(0, 5000, ReconnectFire)]
   \<and> status (onEnd 1000 failedSession) = Failed
   \<and> timers (onEnd 1000 failedSession) = []"
  using reconnect_scheduling [of exampleSession 1000] reconnect_scheduling [of failedSession 1000]
  by (simp add: example_defs cleanup_alt jsOr_def)

text \<open>The example of the claim as stated fails: after three consecutive disconnects the
  phase is 'offline', not 'failed', and the third attempt is pending.\<close>

theorem three_disconnects_counterexample:
  "status (run threeDisconnects exampleSession) \<noteq> Failed
   \<and> reconnectAttempts (run threeDisconnects exampleSession) = 3
   \<and> timers (run threeDisconnects exampleSession) = [(2, 5000, ReconnectFire)]"
  using three_disconnects by simp

subsection \<open>Self-sustenance: timeouts and success\<close>

lemma onlineSession_eval:
  "onlineSession =
     exampleSession\<lparr>status := Online, isConnecting := False, bot := Some newClient,
       stats := (stats exampleSession)\<lparr>connectedAt := Some 500\<rparr>,
       antiAfkInterval := Some 0, proximityInterval := Some 1, autoEatTimeout := Some 2,
       inventoryMonitorInterval := Some 3,
       timers := [(0, 30000, AntiAfkTick), (1, 1000, ProximityTick), (2, 5000, CheckFood),
                  (3, 60000, InventoryTick)],
       nextTimer := 4,
       calls := [CreateBot, SetControlState ''sneak'' True, Connected]\<rparr>"
  by (simp add: example_defs onLogin_def start_def timer_defs startInventoryMonitor_def
        startAutoEat_def startProximityCheck_def startAntiAfk_def clearTracked_alt)

lemmas base_defs = exampleSession_def newSession_def exampleSettings_def

lemmas eat_run_defs =
  step_def fire_def checkFood_def checkFoodResume_def eatCatch_def nextCheck_def
  isTimeoutMessage_def timer_defs hungryClient_def newClient_def FOOD_ITEMS_def
  eatTimeout_def checkInterval_def threeEatTimeouts_def fourEatTimeouts_def
  eatenAfterTimeouts_def

lemma three_eat_timeouts:
  "eatTimeoutCount (run threeEatTimeouts onlineSession) = 3
   \<and> timers (run threeEatTimeouts onlineSession) =
       [(0, 30000, AntiAfkTick), (1, 1000, ProximityTick), (3, 60000, InventoryTick),
        (6, 30000, CheckFood)]"
  by (simp add: onlineSession_eval base_defs eat_run_defs)

lemma four_eat_timeouts:
  "eatTimeoutCount (run fourEatTimeouts onlineSession) = 4
   \<and> timers (run fourEatTimeouts onlineSession) =
       [(0, 30000, AntiAfkTick), (1, 1000, ProximityTick), (3, 60000, InventoryTick),
        (7, 60000, CheckFood)]"
  by (simp add: onlineSession_eval base_defs eat_run_defs)

lemma eaten_after_timeouts:
  "eatTimeoutCount (run eatenAfterTimeouts onlineSession) = 0
   \<and> timers (run eatenAfterTimeouts onlineSession) =
       [(0, 30000, AntiAfkTick), (1, 1000, ProximityTick), (3, 60000, InventoryTick),
        (7, 5000, CheckFood)]"
  by (simp add: onlineSession_eval base_defs eat_run_defs)

lemma eat_timeout_step:
  "isTimeoutMessage message \<Longrightarrow>
     eatTimeoutCount (checkFoodResume (EatError message) s) = Suc (eatTimeoutCount s)
   \<and> timers (checkFoodResume (EatError message) s) =
       timers s @ [(nextTimer s, if 3 \<le> eatTimeoutCount s then 60000 else 30000, CheckFood)]
   \<and> autoEatTimeout (checkFoodResume (EatError message) s) = Some (nextTimer s)
   \<and> \<not> isEating (checkFoodResume (EatError message) s)"
  by (simp add: checkFoodResume_def eatCatch_def nextCheck_def setTimer_def Let_def)

lemma eat_success_step:
  "bot s \<noteq> None \<Longrightarrow>
     eatTimeoutCount (checkFoodResume Eaten s) = 0
   \<and> timers (checkFoodResume Eaten s) = timers s @ [(nextTimer s, checkInterval, CheckFood)]
   \<and> autoEatTimeout (checkFoodResume Eaten s) = Some (nextTimer s)
   \<and> \<not> isEating (checkFoodResume Eaten s)"
  by (auto simp add: checkFoodResume_def nextCheck_def setTimer_def Let_def)

text \<open>
  Claim C9. When the race of the equip-and-consume task ends with a timeout (an error
  whose message the test of line 1076 accepts), the consecutive-timeout counter is
  incremented and the next tick is set at 30000 ms, or at 60000 ms once three consecutive
  timeouts have gone before, both above the base interval of 5000 ms. When it ends with
  success and the client is still held, the counter is reset to zero and the next tick is
  set at the base interval. On the example slot, three consecutive timeouts leave the
  counter at 3 with retries at 30000 ms, a fourth is retried at 60000 ms, and a success
  after the three brings the counter to 0 and the delay to 5000 ms.
\<close>

theorem auto_eat_backoff:
  "(isTimeoutMessage message \<longrightarrow>
      eatTimeoutCount (checkFoodResume (EatError message) s) = Suc (eatTimeoutCount s)
      \<and> timers (checkFoodResume (EatError message) s) =
          timers s @ [(nextTimer s, if 3 \<le> eatTimeoutCount s then 60000 else 30000, CheckFood)]
      \<and> checkInterval < (if 3 \<le> eatTimeoutCount s then 60000 else 30000))
   \<and> (bot s \<noteq> None \<longrightarrow>
      eatTimeoutCount (checkFoodResume Eaten s) = 0
      \<and> timers (checkFoodResume Eaten s) = timers s @ [(nextTimer s, checkInterval, CheckFood)])
   \<and> eatTimeoutCount (run threeEatTimeouts onlineSession) = 3
   \<and> (6, 30000, CheckFood) \<in> set (timers (run threeEatTimeouts onlineSession))
   \<and> eatTimeoutCount (run fourEatTimeouts onlineSession) = 4
   \<and> (7, 60000, CheckFood) \<in> set (timers (run fourEatTimeouts onlineSession))
   \<and> eatTimeoutCount (run eatenAfterTimeouts onlineSession) = 0
   \<and> (7, 5000, CheckFood) \<in> set (timers (run eatenAfterTimeouts onlineSession))"
proof -
  have "checkInterval < (if 3 \<le> eatTimeoutCount s then 60000 else 30000)"
    by (simp add: checkInterval_def)
  with eat_timeout_step [of message s] eat_success_step [of s]
    three_eat_timeouts four_eat_timeouts eaten_after_timeouts
  show ?thesis by simp
qed

theorem auto_eat_backoff_witness:
  "eatTimeoutCount (checkFoodResume (EatError ''Eat operation timed out'') onlineSession) = 1
   \<and> timers (checkFoodResume (EatError ''Eat operation timed out'') onlineSession) =
       timers onlineSession @ [(4, 30000, CheckFood)]
   \<and> eatTimeoutCount (checkFoodResume Eaten onlineSession) = 0
   \<and> timers (checkFoodResume Eaten onlineSession) =
       timers onlineSession @ [(4, 5000, CheckFood)]"
proof -
  have "isTimeoutMessage ''Eat operation timed out''"
    by (simp add: isTimeoutMessage_def)
  moreover have "bot onlineSession \<noteq> None"
    by (simp add: onlineSession_bot)
  moreover have "nextTimer onlineSession = 4" "eatTimeoutCount onlineSession = 0"
    by (simp_all add: onlineSession_eval base_defs)
  ultimately show ?thesis
    using auto_eat_backoff [of "''Eat operation timed out''" onlineSession]
    by (simp add: checkInterval_def)
qed

subsection \<open>Lobby mode\<close>

lemma spawn_enters_lobby:
  assumes "bot s = Some b" and "bot_entity b = Some currentPos" and "lastPosition s = Some home"
    and "\<not> isInLobby s" and "200 < distanceTo home currentPos"
  shows "isInLobby (snd (onSpawn s))
     \<and> antiAfkInterval (snd (onSpawn s)) = None
     \<and> proximityInterval (snd (onSpawn s)) = None
     \<and> timers (snd (onSpawn s)) =
         filter (\<lambda>t. Some (fst t) \<noteq> antiAfkInterval s \<and> Some (fst t) \<noteq> proximityInterval s
                     \<and> Some (fst t) \<noteq> lobbyRetryInterval s) (timers s)
         @ [(nextTimer s, 10000, LobbyFirstTry), (Suc (nextTimer s), 30000, LobbyRetry)]
     \<and> lastPosition (snd (onSpawn s)) = Some home"
  using assms
  by (simp add: onSpawn_def enterLobbyMode_def startLobbyRetry_def stopLobbyRetry_def
        clearTracked_alt setTimer_def call_def Let_def conj_commute conj_left_commute)

lemma spawn_leaves_lobby:
  assumes "bot s = Some b" and "bot_entity b = Some currentPos" and "lastPosition s = Some home"
    and "isInLobby s" and "distanceTo home currentPos < 50"
  shows "\<not> isInLobby (snd (onSpawn s))
     \<and> timers (snd (onSpawn s)) =
         filter (\<lambda>t. Some (fst t) \<noteq> lobbyRetryInterval s) (timers s)
         @ (if antiAfkEnabled (settings s)
            then [(nextTimer s, jsOr (antiAfkIntervalMs (settings s)) 30000, AntiAfkTick)]
            else [])
         @ (if proximityAlertEnabled (settings s)
            then [(if antiAfkEnabled (settings s) then Suc (nextTimer s) else nextTimer s,
                   1000, ProximityTick)]
            else [])
     \<and> antiAfkInterval (snd (onSpawn s)) =
         (if antiAfkEnabled (settings s) then Some (nextTimer s) else antiAfkInterval s)
     \<and> proximityInterval (snd (onSpawn s)) =
         (if proximityAlertEnabled (settings s)
          then Some (if antiAfkEnabled (settings s) then Suc (nextTimer s) else nextTimer s)
          else proximityInterval s)"
  using assms
  by (simp add: onSpawn_def exitLobbyMode_def startAntiAfk_def startProximityCheck_def
        stopLobbyRetry_def clearTracked_alt setTimer_def call_def Let_def)

lemmas lobby_run_defs =
  movedAway_def movedBack_def homeClient_def lobbyClient_def backClient_def newClient_def
  step_def onSpawn_def enterLobbyMode_def exitLobbyMode_def startLobbyRetry_def
  stopLobbyRetry_def startAntiAfk_def startProximityCheck_def clearTracked_alt timer_defs
  distanceTo_def

lemma movedAway_eval:
  "bot movedAway = Some lobbyClient \<and> lastPosition movedAway = Some (100, 64, 100)
   \<and> \<not> isInLobby movedAway \<and> timers movedAway = timers onlineSession
   \<and> nextTimer movedAway = 4 \<and> antiAfkInterval movedAway = Some 0
   \<and> proximityInterval movedAway = Some 1 \<and> lobbyRetryInterval movedAway = None"
  by (simp add: onlineSession_eval base_defs lobby_run_defs)

lemma movedBack_eval:
  "bot movedBack = Some backClient \<and> lastPosition movedBack = Some (100, 64, 100)
   \<and> isInLobby movedBack
   \<and> timers movedBack =
       [(2, 5000, CheckFood), (3, 60000, InventoryTick), (4, 10000, LobbyFirstTry),
        (5, 30000, LobbyRetry)]
   \<and> nextTimer movedBack = 6 \<and> lobbyRetryInterval movedBack = Some 5
   \<and> settings movedBack = exampleSettings"
  by (simp add: onlineSession_eval base_defs lobby_run_defs)

lemma example_distances:
  "200 < distanceTo (100, 64, 100) (5000, 64, 100)"
  "distanceTo (100, 64, 100) (110, 64, 100) < 50"
  by (simp_all add: distanceTo_def)

text \<open>
  What the handler of 'spawn' does to the timers. When it runs on a slot that holds a
  client, knows its last position and is not in lobby mode, and the client's position is
  farther than 200 blocks from \<^verbatim>\<open>lastPosition\<close>, then \<^verbatim>\<open>isInLobby\<close> is set, the anti-AFK
  and proximity timers whose handles the fields hold are cancelled and the fields
  cleared, the lobby retry timers are set, and \<^verbatim>\<open>lastPosition\<close> is kept; every other
  pending timer stays. When it runs in lobby mode and the position is closer than 50
  blocks to \<^verbatim>\<open>lastPosition\<close>, \<^verbatim>\<open>isInLobby\<close> is cleared, the retry timer is cancelled,
  and the anti-AFK and proximity timers are armed again, each if its policy flag is set.
\<close>

lemma spawn_round_trip_tracked:
  "(bot s = Some b \<and> bot_entity b = Some currentPos \<and> lastPosition s = Some home
      \<and> \<not> isInLobby s \<and> 200 < distanceTo home currentPos \<longrightarrow>
     isInLobby (snd (onSpawn s))
     \<and> antiAfkInterval (snd (onSpawn s)) = None
     \<and> proximityInterval (snd (onSpawn s)) = None
     \<and> timers (snd (onSpawn s)) =
         filter (\<lambda>t. Some (fst t) \<noteq> antiAfkInterval s \<and> Some (fst t) \<noteq> proximityInterval s
                     \<and> Some (fst t) \<noteq> lobbyRetryInterval s) (timers s)
         @ [(nextTimer s, 10000, LobbyFirstTry), (Suc (nextTimer s), 30000, LobbyRetry)]
     \<and> lastPosition (snd (onSpawn s)) = Some home)
   \<and> (bot s = Some b \<and> bot_entity b = Some currentPos \<and> lastPosition s = Some home
      \<and> isInLobby s \<and> distanceTo home currentPos < 50 \<longrightarrow>
     \<not> isInLobby (snd (onSpawn s))
     \<and> timers (snd (onSpawn s)) =
         filter (\<lambda>t. Some (fst t) \<noteq> lobbyRetryInterval s) (timers s)
         @ (if antiAfkEnabled (settings s)
            then [(nextTimer s, jsOr (antiAfkIntervalMs (settings s)) 30000, AntiAfkTick)]
            else [])
         @ (if proximityAlertEnabled (settings s)
            then [(if antiAfkEnabled (settings s) then Suc (nextTimer s) else nextTimer s,
                   1000, ProximityTick)]
            else [])
     \<and> antiAfkInterval (snd (onSpawn s)) =
         (if antiAfkEnabled (settings s) then Some (nextTimer s) else antiAfkInterval s)
     \<and> proximityInterval (snd (onSpawn s)) =
         (if proximityAlertEnabled (settings s)
          then Some (if antiAfkEnabled (settings s) then Suc (nextTimer s) else nextTimer s)
          else proximityInterval s))"
  using spawn_enters_lobby [of s b currentPos home] spawn_leaves_lobby [of s b currentPos home]
  by blast

lemma spawn_round_trip_example:
  "isInLobby (snd (onSpawn movedAway))
   \<and> timers (snd (onSpawn movedAway)) =
       [(2, 5000, CheckFood), (3, 60000, InventoryTick), (4, 10000, LobbyFirstTry),
        (5, 30000, LobbyRetry)]
   \<and> \<not> isInLobby (snd (onSpawn movedBack))
   \<and> timers (snd (onSpawn movedBack)) =
       [(2, 5000, CheckFood), (3, 60000, InventoryTick), (4, 10000, LobbyFirstTry),
        (6, 30000, AntiAfkTick), (7, 1000, ProximityTick)]
   \<and> antiAfkInterval (snd (onSpawn movedBack)) = Some 6
   \<and> proximityInterval (snd (onSpawn movedBack)) = Some 7"
  using spawn_round_trip_tracked [of movedAway lobbyClient "(5000, 64, 100)" "(100, 64, 100)"]
    spawn_round_trip_tracked [of movedBack backClient "(110, 64, 100)" "(100, 64, 100)"]
    movedAway_eval movedBack_eval example_distances
  by (simp add: lobbyClient_def backClient_def newClient_def onlineSession_eval
        exampleSettings_def jsOr_def)

text \<open>
  Claim C8. Entering lobby mode does not cancel every idle-prevention and
  threat-detection timer. \<^verbatim>\<open>startAntiAfk\<close> and \<^verbatim>\<open>startProximityCheck\<close> (lines 1020 and
  1095) store the new handle over the old one without clearing the old interval, and the
  handler of 'login' calls them at every login. In the run, the online slot (timers 0 and
  1 armed by the first login) spawns at home, a second 'login' arrives on the same
  connection (timers 4 and 5), and the slot spawns 4900 blocks away. The handler of
  'spawn' enters lobby mode and cancels the timers 4 and 5: the slot is in lobby mode,
  both handle fields are cleared, and the anti-AFK timer 0 and the proximity timer 1 are
  still pending. When timer 0 fires in lobby mode, the jump control is engaged.
\<close>

theorem lobby_mode_orphan_timers:
  "isInLobby (run secondLogin onlineSession)
   \<and> status (run secondLogin onlineSession) = Online
   \<and> lastPosition (run secondLogin onlineSession) = Some (100, 64, 100)
   \<and> antiAfkInterval (run secondLogin onlineSession) = None
   \<and> proximityInterval (run secondLogin onlineSession) = None
   \<and> timers (run secondLogin onlineSession) =
       [(0, 30000, AntiAfkTick), (1, 1000, ProximityTick), (2, 5000, CheckFood),
        (6, 5000, CheckFood), (7, 60000, InventoryTick), (8, 10000, LobbyFirstTry),
        (9, 30000, LobbyRetry)]
   \<and> calls (run secondLogin onlineSession) =
       calls onlineSession
       @ [SetControlState ''sneak'' True, SetControlState ''sneak'' True, Connected,
          SetControlState ''sneak'' True, LobbyDetected True]
   \<and> isInLobby (run (secondLogin @ [Fire 0 31000 True]) onlineSession)
   \<and> calls (run (secondLogin @ [Fire 0 31000 True]) onlineSession) =
       calls (run secondLogin onlineSession) @ [SetControlState ''jump'' True]"
  by (simp add: secondLogin_def onlineSession_eval base_defs lobby_run_defs onLogin_def
        startAutoEat_def startInventoryMonitor_def fire_def antiAfkTick_def)

subsection \<open>The shape of a protection run\<close>

lemma breakBlocks_cases:
  "breakBlocks p blocks s = (s, Suspended AwaitRescan)
   \<or> (bot s = None \<and> breakBlocks p blocks s = (s\<lparr>protectionRunning := False\<rparr>, Finished ClientGone))
   \<or> (bot s \<noteq> None \<and> isEnemyNearby s
       \<and> breakBlocks p blocks s = (snd (stop (s\<lparr>protectionRunning := False\<rparr>)), Finished Threat))
   \<or> (bot s \<noteq> None \<and> (\<exists>pos rest. breakBlocks p blocks s = (call (LookAt pos) s, Suspended (AwaitLookAt pos rest))))"
proof (induction blocks)
  case Nil
  then show ?case by simp
next
  case (Cons pos rest)
  show ?case
  proof (cases "bot s")
    case None
    then show ?thesis by simp
  next
    case (Some b)
    then show ?thesis using Cons
      by (cases "map_of (blockAt b) pos") (auto simp del: split_paired_Ex)
  qed
qed

lemma protShape_markI: "list_all protCall cs \<Longrightarrow> protShape s (mark g cs s)"
  unfolding protShape_def by blast

lemma protShape_stopI: "list_all protCall cs \<Longrightarrow> protShape s (snd (stop (mark False cs s)))"
  unfolding protShape_def by blast

lemma mark_id: "mark (protectionRunning s) [] s = s"
  by (simp add: mark_def)

lemma call_mark: "call c (mark g cs s) = mark g (cs @ [c]) s"
  by (simp add: mark_def call_def)

lemma guard_mark: "(mark g cs s)\<lparr>protectionRunning := g'\<rparr> = mark g' cs s"
  by (simp add: mark_def)

lemma mark_fields [simp]:
  "bot (mark g cs s) = bot s" "status (mark g cs s) = status s"
  "settings (mark g cs s) = settings s" "username (mark g cs s) = username s"
  "cachedWhitelist (mark g cs s) = cachedWhitelist s"
  by (simp_all add: mark_def)

lemma breakBlocks_shape:
  "list_all protCall cs \<Longrightarrow> protShape s (fst (breakBlocks p blocks (mark g cs s)))"
  using breakBlocks_cases [of p blocks "mark g cs s"]
  by (auto simp add: guard_mark call_mark intro!: protShape_markI protShape_stopI)

lemma afterLoop_shape:
  "list_all protCall cs \<Longrightarrow> protShape s (fst (afterLoop (mark g cs s)))"
  by (cases "bot s") (auto simp add: afterLoop_def guard_mark call_mark intro!: protShape_stopI)

lemma scanLoop_shape:
  "list_all protCall cs \<Longrightarrow> protShape s (fst (scanLoop p (mark g cs s)))"
  by (cases "bot s") (auto simp add: scanLoop_def afterLoop_shape breakBlocks_shape)

lemma sneakAndScan_shape:
  "list_all protCall cs \<Longrightarrow> protShape s (fst (sneakAndScan p (mark g cs s)))"
  by (cases "bot s") (auto simp add: sneakAndScan_def call_mark scanLoop_shape intro!: protShape_markI)

lemma executeProtection_shape: "protShape s (fst (executeProtection s))"
proof -
  have m: "s\<lparr>protectionRunning := True\<rparr> = mark True [] s" by (simp add: mark_def)
  have r: "protShape s s" using protShape_markI [of "[]" s "protectionRunning s"] by (simp add: mark_id)
  show ?thesis
    using r sneakAndScan_shape [of "[]" s _ True] protShape_markI [of "[]" s True]
      protShape_markI [of "[Equip n]" s True for n]
    by (auto simp add: executeProtection_def Let_def m call_mark split: option.splits)
qed

lemma resumeProtection_shape: "protShape s (fst (resumeProtection k ok s))"
proof -
  have r: "protShape s s" using protShape_markI [of "[]" s "protectionRunning s"] by (simp add: mark_id)
  have m: "s\<lparr>protectionRunning := False\<rparr> = mark False [] s" by (simp add: mark_def)
  have c: "call c s = mark (protectionRunning s) [c] s" for c by (simp add: mark_def call_def)
  have b: "protShape s (fst (breakBlocks p blocks s))" for p blocks
    using breakBlocks_shape [of "[]" s p blocks "protectionRunning s"] by (simp add: mark_id)
  have l: "protShape s (fst (scanLoop p s))" for p
    using scanLoop_shape [of "[]" s p "protectionRunning s"] by (simp add: mark_id)
  have n: "protShape s (fst (sneakAndScan p s))" for p
    using sneakAndScan_shape [of "[]" s p "protectionRunning s"] by (simp add: mark_id)
  show ?thesis
    using r b l n protShape_markI [of "[]" s False] protShape_markI [of "[Dig pos]" s "protectionRunning s" for pos]
    by (auto simp add: resumeProtection_def m c split: option.splits pcont.splits)
qed

subsection \<open>What a protection run and the alert rule leave unchanged\<close>

lemma protShape_frame:
  assumes "protShape s s'"
  shows "settings s' = settings s" and "username s' = username s"
    and "cachedWhitelist s' = cachedWhitelist s" and "onProximityAlert s' = onProximityAlert s"
    and "protectionEnabled s' = protectionEnabled s" and "alertCooldowns s' = alertCooldowns s"
    and "nextTimer s' = nextTimer s" and "stats s' = stats s"
    and "protectionTasks s' = protectionTasks s"
  using assms unfolding protShape_def mark_def by (auto simp add: stop_alt)

lemma protShape_outcome:
  assumes "protShape s s'"
  shows "(bot s' = bot s \<and> status s' = status s \<and> timers s' = timers s
          \<and> isManuallyStopped s' = isManuallyStopped s
          \<and> (\<exists>cs. calls s' = calls s @ cs \<and> list_all protCall cs))
       \<or> (bot s' = None \<and> status s' = Offline \<and> isManuallyStopped s'
          \<and> set (timers s') \<subseteq> set (timers s)
          \<and> (\<exists>cs. calls s' = calls s @ cs @ (if bot s = None then [] else [Quit])
                   \<and> list_all protCall cs))"
  using assms unfolding protShape_def mark_def by (auto simp add: stop_alt)

lemma settle_alt:
  "settle r = (fst r)\<lparr>protectionTasks :=
       protectionTasks (fst r) @ (case snd r of Suspended k \<Rightarrow> [k] | _ \<Rightarrow> [])\<rparr>"
  by (cases "snd r") (simp_all add: settle_def)

lemma alertRule_sameSlot: "sameSlot s (alertRule now e d s)"
  using protShape_frame [OF executeProtection_shape]
  by (simp add: sameSlot_def alertRule_def Let_def setTimer_def settle_alt)

lemma alertRule_outcome:
  "(bot (alertRule now e d s) = bot s
      \<and> (\<exists>cs. calls (alertRule now e d s) = calls s @ cs \<and> list_all protCall cs))
   \<or> (protection (settings s) \<noteq> None \<and> protectionEnabled s
      \<and> bot (alertRule now e d s) = None \<and> status (alertRule now e d s) = Offline
      \<and> isManuallyStopped (alertRule now e d s)
      \<and> (\<exists>cs. calls (alertRule now e d s) = calls s @ cs @ (if bot s = None then [] else [Quit])
               \<and> list_all protCall cs))"
proof -
  let ?s1 = "s\<lparr>alertCooldowns := (alertCooldowns s)(eusername e \<mapsto> now)\<rparr>"
  have self: "\<exists>cs. calls s = calls s @ cs \<and> list_all protCall cs"
    by (rule exI [of _ "[]"]) simp
  from protShape_outcome [OF executeProtection_shape [of ?s1]] self
  show ?thesis
    by (auto simp add: alertRule_def Let_def setTimer_def settle_alt)
qed

subsection \<open>The scan of the second declaration\<close>

lemma scan_skip:
  "bot s = Some b \<Longrightarrow> \<not> candidate s e \<or> eposition e = None \<or> bot_entity b = None \<Longrightarrow>
   scanEntities now (e # es) s = scanEntities now es s"
  by (auto simp add: candidate_def split: option.splits)

lemma scan_emergency:
  "bot s = Some b \<Longrightarrow> bot_entity b = Some me \<Longrightarrow> candidate s e \<Longrightarrow> eposition e = Some p \<Longrightarrow>
   distanceTo me p \<le> emergencyDistanceOf s \<Longrightarrow>
   scanEntities now (e # es) s =
     (EmergencyStop,
      snd (stop ((if onProximityAlert s then call (ProximityAlert (eusername e) (distanceTo me p)) s
                  else s)\<lparr>protectionRunning := False\<rparr>)))"
  by (simp add: candidate_def Let_def)

lemma scan_alert:
  "bot s = Some b \<Longrightarrow> bot_entity b = Some me \<Longrightarrow> candidate s e \<Longrightarrow> eposition e = Some p \<Longrightarrow>
   \<not> distanceTo me p \<le> emergencyDistanceOf s \<Longrightarrow>
   scanEntities now (e # es) s = scanEntities now es (alertRule now e (distanceTo me p) s)"
  by (simp add: candidate_def Let_def)

lemma scan_gone: "bot s = None \<Longrightarrow> es \<noteq> [] \<Longrightarrow> scanEntities now es s = (ScanTypeError, s)"
  by (cases es) (simp_all add: scanEntities.simps)

declare scanEntities.simps(2) [simp del]

lemma enemyAmong_sameSlot:
  assumes "sameSlot s s'"
  shows "enemyAmong s' me es = enemyAmong s me es"
proof -
  from assms have "username s' = username s" "cachedWhitelist s' = cachedWhitelist s"
    "emergencyDistanceOf s' = emergencyDistanceOf s"
    by (simp_all add: sameSlot_def emergencyDistanceOf_def)
  then show ?thesis by (induction es) (simp_all split: option.splits)
qed

lemma enemyAmong_iff:
  "enemyAmong s me es =
     (\<exists>e\<in>set es. candidate s e \<and> (\<exists>p. eposition e = Some p \<and> distanceTo me p \<le> emergencyDistanceOf s))"
  by (induction es) (auto simp add: candidate_def split: option.splits)

lemma scan_threat:
  "bot s = Some b \<Longrightarrow> bot_entity b = Some me \<Longrightarrow> enemyAmong s me es \<Longrightarrow>
   emergencyOutcome s me es (scanEntities now es s)"
proof (induction es arbitrary: s)
  case Nil
  then show ?case by simp
next
  case (Cons e es)
  show ?case
  proof (cases "candidate s e \<and> eposition e \<noteq> None")
    case False
    then have no: "\<not> candidate s e \<or> eposition e = None \<or> bot_entity b = None"
      by blast
    have skip: "scanEntities now (e # es) s = scanEntities now es s"
      using Cons.prems(1) no by (rule scan_skip)
    from False have "\<not> candidate s e \<or> eposition e = None" by blast
    with Cons.prems(3) have "enemyAmong s me es"
      by (cases "eposition e") (auto simp add: candidate_def split: if_splits)
    from Cons.IH [OF Cons.prems(1,2) this] show ?thesis
      unfolding skip emergencyOutcome_def by auto
  next
    case True
    then obtain p where cand: "candidate s e" and pos: "eposition e = Some p" by auto
    show ?thesis
    proof (cases "distanceTo me p \<le> emergencyDistanceOf s")
      case True
      have eq: "scanEntities now (e # es) s =
         (EmergencyStop,
          snd (stop ((if onProximityAlert s then call (ProximityAlert (eusername e) (distanceTo me p)) s
                  else s)\<lparr>protectionRunning := False\<rparr>)))"
        using scan_emergency [OF Cons.prems(1,2) cand pos True] .
      have c: "calls (snd (scanEntities now (e # es) s)) =
              calls s @ [] @ (if onProximityAlert s then [ProximityAlert (eusername e) (distanceTo me p)] else []) @ [Quit]"
        unfolding eq using Cons.prems(1) by (simp add: stop_alt call_def)
      have st: "bot (snd (scanEntities now (e # es) s)) = None"
        "status (snd (scanEntities now (e # es) s)) = Offline"
        "isManuallyStopped (snd (scanEntities now (e # es) s))"
        "fst (scanEntities now (e # es) s) = EmergencyStop"
        unfolding eq by (simp_all add: stop_alt)
      have q: "\<exists>cs. calls (snd (scanEntities now (e # es) s)) = calls s @ cs @ [Quit]"
        by (rule exI [of _ "if onProximityAlert s then [ProximityAlert (eusername e) (distanceTo me p)] else []"])
           (simp add: c)
      have w: "\<exists>e'\<in>set (e # es). \<exists>p' cs. candidate s e' \<and> eposition e' = Some p'
               \<and> distanceTo me p' \<le> emergencyDistanceOf s
               \<and> calls (snd (scanEntities now (e # es) s)) =
                   calls s @ cs
                   @ (if onProximityAlert s
                      then [ProximityAlert (eusername e') (distanceTo me p')] else [])
                   @ [Quit]"
        using cand pos True c by (intro bexI [of _ e] exI [of _ p] exI [of _ "[]"]) simp_all
      show ?thesis
        unfolding emergencyOutcome_def using st q w by simp
    next
      case False
      let ?s1 = "alertRule now e (distanceTo me p) s"
      have eq: "scanEntities now (e # es) s = scanEntities now es ?s1"
        using scan_alert [OF Cons.prems(1,2) cand pos False] .
      have same: "sameSlot s ?s1" by (rule alertRule_sameSlot)
      from False Cons.prems(3) cand pos have rest: "enemyAmong s me es"
        by (simp add: candidate_def)
      then have nonempty: "es \<noteq> []" by auto
      from alertRule_outcome [of now e "distanceTo me p" s]
      show ?thesis
      proof
        assume alive: "bot ?s1 = bot s \<and> (\<exists>cs. calls ?s1 = calls s @ cs \<and> list_all protCall cs)"
        then obtain cs0 where cs0: "calls ?s1 = calls s @ cs0" by blast
        from alive Cons.prems(1) have b1: "bot ?s1 = Some b" by simp
        from rest same have "enemyAmong ?s1 me es" by (simp add: enemyAmong_sameSlot)
        from Cons.IH [OF b1 Cons.prems(2) this]
        have ih: "emergencyOutcome ?s1 me es (scanEntities now es ?s1)" .
        have cand_eq: "candidate ?s1 x = candidate s x" for x
          using same by (simp add: candidate_def sameSlot_def)
        have ed: "emergencyDistanceOf ?s1 = emergencyDistanceOf s"
          using same by (simp add: emergencyDistanceOf_def sameSlot_def)
        from same have sf: "settings ?s1 = settings s" "protectionEnabled ?s1 = protectionEnabled s"
          "onProximityAlert ?s1 = onProximityAlert s" by (simp_all add: sameSlot_def)
        let ?r = "scanEntities now es ?s1"
        from ih have st: "bot (snd ?r) = None" "status (snd ?r) = Offline"
          "isManuallyStopped (snd ?r)" "fst ?r \<noteq> ScanDone"
          unfolding emergencyOutcome_def by simp_all
        from ih obtain cs1 where "calls (snd ?r) = calls ?s1 @ cs1 @ [Quit]"
          unfolding emergencyOutcome_def by blast
        then have "calls (snd ?r) = calls s @ (cs0 @ cs1) @ [Quit]"
          by (simp add: cs0)
        then have q: "\<exists>cs. calls (snd ?r) = calls s @ cs @ [Quit]" by blast
        from ih have te: "fst ?r = ScanTypeError \<longrightarrow>
            protection (settings s) \<noteq> None \<and> protectionEnabled s"
          unfolding emergencyOutcome_def sf by blast
        have em: "fst ?r = EmergencyStop \<longrightarrow>
           (\<exists>e'\<in>set (e # es). \<exists>p' cs. candidate s e' \<and> eposition e' = Some p'
               \<and> distanceTo me p' \<le> emergencyDistanceOf s
               \<and> calls (snd ?r) =
                   calls s @ cs
                   @ (if onProximityAlert s
                      then [ProximityAlert (eusername e') (distanceTo me p')] else [])
                   @ [Quit])"
        proof
          assume "fst ?r = EmergencyStop"
          with ih obtain e' p' cs2 where e': "e' \<in> set es" "candidate s e'"
            "eposition e' = Some p'" "distanceTo me p' \<le> emergencyDistanceOf s"
            and c2: "calls (snd ?r) =
                   calls ?s1 @ cs2
                   @ (if onProximityAlert s
                      then [ProximityAlert (eusername e') (distanceTo me p')] else [])
                   @ [Quit]"
            unfolding emergencyOutcome_def cand_eq ed sf by blast
          from c2 have "calls (snd ?r) =
                   calls s @ (cs0 @ cs2)
                   @ (if onProximityAlert s
                      then [ProximityAlert (eusername e') (distanceTo me p')] else [])
                   @ [Quit]"
            by (simp add: cs0)
          with e' show "\<exists>e'\<in>set (e # es). \<exists>p' cs. candidate s e' \<and> eposition e' = Some p'
               \<and> distanceTo me p' \<le> emergencyDistanceOf s
               \<and> calls (snd ?r) =
                   calls s @ cs
                   @ (if onProximityAlert s
                      then [ProximityAlert (eusername e') (distanceTo me p')] else [])
                   @ [Quit]"
            by (intro bexI [of _ e'] exI [of _ p'] exI [of _ "cs0 @ cs2"]) simp_all
        qed
        show ?thesis
          unfolding eq emergencyOutcome_def using st q te em by simp
      next
        assume dead: "protection (settings s) \<noteq> None \<and> protectionEnabled s
            \<and> bot ?s1 = None \<and> status ?s1 = Offline \<and> isManuallyStopped ?s1
            \<and> (\<exists>cs. calls ?s1 = calls s @ cs @ (if bot s = None then [] else [Quit]) \<and> list_all protCall cs)"
        then have gone: "scanEntities now es ?s1 = (ScanTypeError, ?s1)"
          using scan_gone [of ?s1 es now] nonempty by simp
        from dead Cons.prems(1) show ?thesis
          unfolding eq gone emergencyOutcome_def by auto
      qed
    qed
  qed
qed

subsection \<open>The scan of the third declaration\<close>

declare scanEntities_decl3.simps(2) [simp del]

lemma cleanup_decl3_alt:
  "cleanup_decl3 s =
     s\<lparr>timers := filter (\<lambda>t. Some (fst t) \<noteq> antiAfkInterval s
                           \<and> Some (fst t) \<noteq> proximityInterval s
                           \<and> Some (fst t) \<noteq> autoEatInterval s) (timers s),
       antiAfkInterval := None, proximityInterval := None, autoEatInterval := None,
       bot := None, status := Offline\<rparr>"
  by (simp add: cleanup_decl3_def clearTracked_alt Let_def conj_commute conj_left_commute)

lemma stop_decl3_alt:
  "bot s \<noteq> None \<Longrightarrow>
   snd (stop_decl3 s) =
     s\<lparr>isManuallyStopped := True, calls := calls s @ [Quit],
       timers := filter (\<lambda>t. Some (fst t) \<noteq> antiAfkInterval s
                           \<and> Some (fst t) \<noteq> proximityInterval s
                           \<and> Some (fst t) \<noteq> autoEatInterval s) (timers s),
       antiAfkInterval := None, proximityInterval := None, autoEatInterval := None,
       bot := None, status := Offline\<rparr>"
  by (auto simp add: stop_decl3_def cleanup_decl3_alt call_def)

lemma scan3_skip:
  "bot s = Some b \<Longrightarrow> \<not> candidate_decl3 s e \<or> eposition e = None \<or> bot_entity b = None \<Longrightarrow>
   scanEntities_decl3 now (e # es) s = scanEntities_decl3 now es s"
  by (auto simp add: scanEntities_decl3.simps candidate_decl3_def split: option.splits)

lemma scan3_skip_gone:
  "\<not> candidate_decl3 s e \<or> eposition e = None \<Longrightarrow>
   scanEntities_decl3 now (e # es) s = scanEntities_decl3 now es s"
  by (auto simp add: scanEntities_decl3.simps candidate_decl3_def split: option.splits)

lemma scan3_gone_step:
  "candidate_decl3 s e \<Longrightarrow> eposition e = Some p \<Longrightarrow> bot s = None \<Longrightarrow>
   scanEntities_decl3 now (e # es) s = (ScanTypeError, s)"
  by (auto simp add: scanEntities_decl3.simps candidate_decl3_def split: option.splits)

lemma scan3_emergency:
  "bot s = Some b \<Longrightarrow> bot_entity b = Some me \<Longrightarrow> candidate_decl3 s e \<Longrightarrow> eposition e = Some p \<Longrightarrow>
   distanceTo me p \<le> emergencyDistanceOf s \<Longrightarrow> protectionConfigured s \<Longrightarrow>
   scanEntities_decl3 now (e # es) s =
     (EmergencyStop,
      snd (stop_decl3 (if onProximityAlert s then call (ProximityAlert (eusername e) (distanceTo me p)) s
                  else s)))"
  by (auto simp add: scanEntities_decl3.simps candidate_decl3_def Let_def split: option.splits)

lemma scan3_alert:
  "bot s = Some b \<Longrightarrow> bot_entity b = Some me \<Longrightarrow> candidate_decl3 s e \<Longrightarrow> eposition e = Some p \<Longrightarrow>
   \<not> (distanceTo me p \<le> emergencyDistanceOf s \<and> protectionConfigured s) \<Longrightarrow>
   scanEntities_decl3 now (e # es) s = scanEntities_decl3 now es (alertRule_decl3 now e (distanceTo me p) s)"
  by (auto simp add: scanEntities_decl3.simps candidate_decl3_def Let_def split: option.splits)

text \<open>B1: with the protection policy off, the scan of the third declaration never stops the slot.\<close>

lemma alertRule3_off:
  "\<not> protectionConfigured s \<Longrightarrow>
   bot (alertRule_decl3 now e d s) = bot s \<and> status (alertRule_decl3 now e d s) = status s
   \<and> isManuallyStopped (alertRule_decl3 now e d s) = isManuallyStopped s
   \<and> calls (alertRule_decl3 now e d s) = calls s
   \<and> settings (alertRule_decl3 now e d s) = settings s
   \<and> username (alertRule_decl3 now e d s) = username s"
  by (simp add: alertRule_decl3_def Let_def setTimer_def protectionConfigured_def)

lemma scan3_off:
  "bot s = Some b \<Longrightarrow> \<not> protectionConfigured s \<Longrightarrow>
   fst (scanEntities_decl3 now es s) = ScanDone
   \<and> bot (snd (scanEntities_decl3 now es s)) = Some b
   \<and> status (snd (scanEntities_decl3 now es s)) = status s
   \<and> isManuallyStopped (snd (scanEntities_decl3 now es s)) = isManuallyStopped s
   \<and> calls (snd (scanEntities_decl3 now es s)) = calls s"
proof (induction es arbitrary: s)
  case Nil
  then show ?case by simp
next
  case (Cons e es)
  show ?case
  proof (cases "candidate_decl3 s e \<and> eposition e \<noteq> None \<and> bot_entity b \<noteq> None")
    case False
    then have "\<not> candidate_decl3 s e \<or> eposition e = None \<or> bot_entity b = None"
      by blast
    with Cons.prems(1) have "scanEntities_decl3 now (e # es) s = scanEntities_decl3 now es s"
      by (rule scan3_skip)
    with Cons.IH [OF Cons.prems] show ?thesis by simp
  next
    case True
    then obtain p me where c: "candidate_decl3 s e" "eposition e = Some p" "bot_entity b = Some me"
      by auto
    let ?s1 = "alertRule_decl3 now e (distanceTo me p) s"
    have eq: "scanEntities_decl3 now (e # es) s = scanEntities_decl3 now es ?s1"
      using scan3_alert [OF Cons.prems(1) c(3) c(1) c(2)] Cons.prems(2) by simp
    from alertRule3_off [OF Cons.prems(2), of now e "distanceTo me p"]
    have f: "bot ?s1 = bot s" "status ?s1 = status s" "isManuallyStopped ?s1 = isManuallyStopped s"
      "calls ?s1 = calls s" "settings ?s1 = settings s" by simp_all
    then have "bot ?s1 = Some b" "\<not> protectionConfigured ?s1"
      using Cons.prems by (simp_all add: protectionConfigured_def)
    from Cons.IH [OF this] show ?thesis unfolding eq f by simp
  qed
qed

subsection \<open>Protection runs and threats in the third declaration\<close>

lemma breakBlocks3_shape:
  "bot s \<noteq> None \<Longrightarrow> list_all protCall cs \<Longrightarrow>
   protShape_decl3 s (fst (breakBlocks_decl3 blocks (s\<lparr>calls := calls s @ cs\<rparr>)))"
proof (induction blocks)
  case Nil
  then obtain b where "bot s = Some b" by auto
  then have "fst (breakBlocks_decl3 [] (s\<lparr>calls := calls s @ cs\<rparr>)) =
     snd (stop_decl3 (s\<lparr>calls := calls s @ (cs @ [SetControlState ''sneak'' False])\<rparr>))"
    by (simp add: call_def)
  moreover have "list_all protCall (cs @ [SetControlState ''sneak'' False])"
    using Nil by simp
  ultimately show ?case
    unfolding protShape_decl3_def using Nil(1) by blast
next
  case (Cons pos rest)
  then obtain b where b: "bot s = Some b" by auto
  show ?case
  proof (cases "map_of (blockAt b) pos")
    case None
    with b Cons show ?thesis by simp
  next
    case (Some name)
    with b have "fst (breakBlocks_decl3 (pos # rest) (s\<lparr>calls := calls s @ cs\<rparr>)) =
       s\<lparr>calls := calls s @ (cs @ [LookAt pos])\<rparr>"
      by (simp add: call_def)
    moreover have "list_all protCall (cs @ [LookAt pos])" using Cons.prems by simp
    ultimately show ?thesis unfolding protShape_decl3_def by blast
  qed
qed

lemma executeProtection3_shape: "protShape_decl3 s (fst (executeProtection_decl3 s))"
proof (cases "bot s")
  case None
  have "s = s\<lparr>calls := calls s @ []\<rparr>" by simp
  then have "protShape_decl3 s s" unfolding protShape_decl3_def
    by (intro exI [of _ "[]"]) simp
  with None show ?thesis by (simp add: executeProtection_decl3_def)
next
  case (Some b)
  have z: "s\<lparr>calls := calls s @ []\<rparr> = s" by simp
  have self: "protShape_decl3 s s" unfolding protShape_decl3_def
    by (intro exI [of _ "[]"]) simp
  have stp: "protShape_decl3 s (snd (stop_decl3 s))" unfolding protShape_decl3_def
    using Some by (intro exI [of _ "[]"]) simp
  have eq: "protShape_decl3 s (call (Equip n) s)" for n unfolding protShape_decl3_def
    by (intro exI [of _ "[Equip n]"]) (simp add: call_def)
  have br: "protShape_decl3 s (fst (breakBlocks_decl3 blocks (call (SetControlState ''sneak'' True) s)))" for blocks
    using breakBlocks3_shape [of s "[SetControlState ''sneak'' True]" blocks] Some
    by (simp add: call_def)
  show ?thesis
    using Some self stp eq br
    by (auto simp add: executeProtection_decl3_def split: option.splits)
qed

lemma protShape3_frame:
  assumes "protShape_decl3 s s'"
  shows "settings s' = settings s" and "username s' = username s"
    and "cachedWhitelist s' = cachedWhitelist s" and "onProximityAlert s' = onProximityAlert s"
    and "protectionEnabled s' = protectionEnabled s" and "alertCooldowns s' = alertCooldowns s"
    and "nextTimer s' = nextTimer s"
  using assms unfolding protShape_decl3_def by (auto simp add: stop_decl3_alt)

lemma protShape3_outcome:
  assumes "protShape_decl3 s s'"
  shows "(bot s' = bot s \<and> status s' = status s \<and> timers s' = timers s
          \<and> isManuallyStopped s' = isManuallyStopped s
          \<and> (\<exists>cs. calls s' = calls s @ cs \<and> list_all protCall cs))
       \<or> (bot s' = None \<and> status s' = Offline \<and> isManuallyStopped s'
          \<and> set (timers s') \<subseteq> set (timers s)
          \<and> (\<exists>cs. calls s' = calls s @ cs @ [Quit] \<and> list_all protCall cs))"
  using assms unfolding protShape_decl3_def by (auto simp add: stop_decl3_alt)

lemma alertRule3_sameSlot: "sameSlot s (alertRule_decl3 now e d s)"
  using protShape3_frame [OF executeProtection3_shape]
  by (simp add: sameSlot_def alertRule_decl3_def Let_def setTimer_def settle_alt protectionConfigured_def)

lemma alertRule3_outcome:
  "(bot (alertRule_decl3 now e d s) = bot s
      \<and> (\<exists>cs. calls (alertRule_decl3 now e d s) = calls s @ cs \<and> list_all protCall cs))
   \<or> (bot (alertRule_decl3 now e d s) = None \<and> status (alertRule_decl3 now e d s) = Offline
      \<and> isManuallyStopped (alertRule_decl3 now e d s)
      \<and> (\<exists>cs. calls (alertRule_decl3 now e d s) = calls s @ cs @ [Quit] \<and> list_all protCall cs))"
proof -
  let ?s1 = "s\<lparr>alertCooldowns := (alertCooldowns s)(eusername e \<mapsto> now)\<rparr>"
  have self: "\<exists>cs. calls s = calls s @ cs \<and> list_all protCall cs"
    by (rule exI [of _ "[]"]) simp
  from protShape3_outcome [OF executeProtection3_shape [of ?s1]] self
  show ?thesis
    by (auto simp add: alertRule_decl3_def Let_def setTimer_def settle_alt)
qed

lemma scan3_gone:
  "bot s = None \<Longrightarrow> threatAmong_decl3 s me es \<Longrightarrow>
   scanEntities_decl3 now es s = (ScanTypeError, s)"
proof (induction es)
  case Nil
  then show ?case by (simp add: threatAmong_decl3_def)
next
  case (Cons e es)
  show ?case
  proof (cases "candidate_decl3 s e \<and> eposition e \<noteq> None")
    case True
    then obtain p where "candidate_decl3 s e" "eposition e = Some p" by auto
    then show ?thesis using Cons.prems(1) by (rule scan3_gone_step)
  next
    case False
    then have no: "\<not> candidate_decl3 s e \<or> eposition e = None" by blast
    then have "scanEntities_decl3 now (e # es) s = scanEntities_decl3 now es s"
      by (rule scan3_skip_gone)
    moreover from no Cons.prems(2) have "threatAmong_decl3 s me es"
      unfolding threatAmong_decl3_def by auto
    ultimately show ?thesis using Cons.IH Cons.prems(1) by simp
  qed
qed

lemma scan3_threat:
  "bot s = Some b \<Longrightarrow> bot_entity b = Some me \<Longrightarrow> protectionConfigured s \<Longrightarrow>
   threatAmong_decl3 s me es \<Longrightarrow>
   emergencyOutcome_decl3 s me es (scanEntities_decl3 now es s)"
proof (induction es arbitrary: s)
  case Nil
  then show ?case by (simp add: threatAmong_decl3_def)
next
  case (Cons e es)
  show ?case
  proof (cases "candidate_decl3 s e \<and> eposition e \<noteq> None")
    case False
    then have no: "\<not> candidate_decl3 s e \<or> eposition e = None" by blast
    then have skip: "scanEntities_decl3 now (e # es) s = scanEntities_decl3 now es s"
      by (rule scan3_skip_gone)
    from no Cons.prems(4) have "threatAmong_decl3 s me es"
      unfolding threatAmong_decl3_def by auto
    from Cons.IH [OF Cons.prems(1,2,3) this] show ?thesis
      unfolding skip emergencyOutcome_decl3_def by auto
  next
    case True
    then obtain p where cand: "candidate_decl3 s e" and pos: "eposition e = Some p" by auto
    show ?thesis
    proof (cases "distanceTo me p \<le> emergencyDistanceOf s")
      case True
      let ?r = "scanEntities_decl3 now (e # es) s"
      have eq: "?r =
         (EmergencyStop,
          snd (stop_decl3 (if onProximityAlert s then call (ProximityAlert (eusername e) (distanceTo me p)) s
                  else s)))"
        using scan3_emergency [OF Cons.prems(1,2) cand pos True Cons.prems(3)] .
      have c: "calls (snd ?r) =
              calls s @ [] @ (if onProximityAlert s then [ProximityAlert (eusername e) (distanceTo me p)] else []) @ [Quit]"
        unfolding eq using Cons.prems(1) by (simp add: stop_decl3_alt call_def)
      have st: "bot (snd ?r) = None" "status (snd ?r) = Offline" "isManuallyStopped (snd ?r)"
        "fst ?r = EmergencyStop"
        unfolding eq using Cons.prems(1) by (simp_all add: stop_decl3_alt call_def)
      have q: "\<exists>cs. calls (snd ?r) = calls s @ cs @ [Quit]"
        by (rule exI [of _ "if onProximityAlert s then [ProximityAlert (eusername e) (distanceTo me p)] else []"])
           (simp add: c)
      have w: "\<exists>e'\<in>set (e # es). \<exists>p' cs. candidate_decl3 s e' \<and> eposition e' = Some p'
               \<and> distanceTo me p' \<le> emergencyDistanceOf s
               \<and> calls (snd ?r) =
                   calls s @ cs
                   @ (if onProximityAlert s
                      then [ProximityAlert (eusername e') (distanceTo me p')] else [])
                   @ [Quit]"
        using cand pos True c by (intro bexI [of _ e] exI [of _ p] exI [of _ "[]"]) simp_all
      show ?thesis
        unfolding emergencyOutcome_decl3_def using st q w by simp
    next
      case False
      let ?s1 = "alertRule_decl3 now e (distanceTo me p) s"
      have eq: "scanEntities_decl3 now (e # es) s = scanEntities_decl3 now es ?s1"
        using scan3_alert [OF Cons.prems(1,2) cand pos] False by simp
      have same: "sameSlot s ?s1" by (rule alertRule3_sameSlot)
      then have sf: "settings ?s1 = settings s" "username ?s1 = username s"
          "onProximityAlert ?s1 = onProximityAlert s" by (simp_all add: sameSlot_def)
      have cand_eq: "candidate_decl3 ?s1 x = candidate_decl3 s x" for x
        using sf by (simp add: candidate_decl3_def)
      have ed: "emergencyDistanceOf ?s1 = emergencyDistanceOf s"
        using sf by (simp add: emergencyDistanceOf_def)
      have pc: "protectionConfigured ?s1" using Cons.prems(3) sf by (simp add: protectionConfigured_def)
      from False Cons.prems(4) pos have rest: "threatAmong_decl3 s me es"
        unfolding threatAmong_decl3_def by auto
      then have rest1: "threatAmong_decl3 ?s1 me es"
        unfolding threatAmong_decl3_def cand_eq ed .
      let ?r = "scanEntities_decl3 now es ?s1"
      from alertRule3_outcome [of now e "distanceTo me p" s]
      show ?thesis
      proof
        assume alive: "bot ?s1 = bot s \<and> (\<exists>cs. calls ?s1 = calls s @ cs \<and> list_all protCall cs)"
        then obtain cs0 where cs0: "calls ?s1 = calls s @ cs0" by blast
        from alive Cons.prems(1) have b1: "bot ?s1 = Some b" by simp
        from Cons.IH [OF b1 Cons.prems(2) pc rest1]
        have ih: "emergencyOutcome_decl3 ?s1 me es ?r" .
        from ih have st: "bot (snd ?r) = None" "status (snd ?r) = Offline"
          "isManuallyStopped (snd ?r)" "fst ?r \<noteq> ScanDone"
          unfolding emergencyOutcome_decl3_def by simp_all
        from ih obtain cs1 where "calls (snd ?r) = calls ?s1 @ cs1 @ [Quit]"
          unfolding emergencyOutcome_decl3_def by blast
        then have "calls (snd ?r) = calls s @ (cs0 @ cs1) @ [Quit]"
          by (simp add: cs0)
        then have q: "\<exists>cs. calls (snd ?r) = calls s @ cs @ [Quit]" by blast
        have em: "fst ?r = EmergencyStop \<longrightarrow>
           (\<exists>e'\<in>set (e # es). \<exists>p' cs. candidate_decl3 s e' \<and> eposition e' = Some p'
               \<and> distanceTo me p' \<le> emergencyDistanceOf s
               \<and> calls (snd ?r) =
                   calls s @ cs
                   @ (if onProximityAlert s
                      then [ProximityAlert (eusername e') (distanceTo me p')] else [])
                   @ [Quit])"
        proof
          assume "fst ?r = EmergencyStop"
          with ih obtain e' p' cs2 where e': "e' \<in> set es" "candidate_decl3 s e'"
            "eposition e' = Some p'" "distanceTo me p' \<le> emergencyDistanceOf s"
            and c2: "calls (snd ?r) =
                   calls ?s1 @ cs2
                   @ (if onProximityAlert s
                      then [ProximityAlert (eusername e') (distanceTo me p')] else [])
                   @ [Quit]"
            unfolding emergencyOutcome_decl3_def cand_eq ed sf by blast
          from c2 have "calls (snd ?r) =
                   calls s @ (cs0 @ cs2)
                   @ (if onProximityAlert s
                      then [ProximityAlert (eusername e') (distanceTo me p')] else [])
                   @ [Quit]"
            by (simp add: cs0)
          with e' show "\<exists>e'\<in>set (e # es). \<exists>p' cs. candidate_decl3 s e' \<and> eposition e' = Some p'
               \<and> distanceTo me p' \<le> emergencyDistanceOf s
               \<and> calls (snd ?r) =
                   calls s @ cs
                   @ (if onProximityAlert s
                      then [ProximityAlert (eusername e') (distanceTo me p')] else [])
                   @ [Quit]"
            by (intro bexI [of _ e'] exI [of _ p'] exI [of _ "cs0 @ cs2"]) simp_all
        qed
        show ?thesis
          unfolding eq emergencyOutcome_decl3_def using st q em by simp
      next
        assume dead: "bot ?s1 = None \<and> status ?s1 = Offline \<and> isManuallyStopped ?s1
            \<and> (\<exists>cs. calls ?s1 = calls s @ cs @ [Quit] \<and> list_all protCall cs)"
        then have gone: "scanEntities_decl3 now es ?s1 = (ScanTypeError, ?s1)"
          using scan3_gone [of ?s1 me es now] rest1 by simp
        from dead show ?thesis
          unfolding eq gone emergencyOutcome_decl3_def by auto
      qed
    qed
  qed
qed

subsection \<open>The alert cooldown\<close>





subsection \<open>The exits of the protection sequence\<close>

lemma exits_afterLoop: "exits s (afterLoop s)"
  by (cases "bot s") (auto simp add: exits_def afterLoop_def stop_alt call_def)

lemma exits_breakBlocks: "exits s (breakBlocks p blocks s)"
  using breakBlocks_cases [of p blocks s]
  by (auto simp add: exits_def stop_alt call_def)

lemma exits_scanLoop: "exits s (scanLoop p s)"
  using exits_afterLoop [of s] exits_breakBlocks [of s p]
  by (auto simp add: scanLoop_def split: option.splits)

text \<open>The same after line 1199 has engaged the sneak control.\<close>

lemma exits_sneak_afterLoop:
  "bot s \<noteq> None \<Longrightarrow> exits s (afterLoop (call (SetControlState ''sneak'' True) (s\<lparr>protectionRunning := g\<rparr>)))"
  by (auto simp add: exits_def afterLoop_def stop_alt call_def)

lemma exits_sneak_breakBlocks:
  "bot s \<noteq> None \<Longrightarrow>
   exits s (breakBlocks p blocks (call (SetControlState ''sneak'' True) (s\<lparr>protectionRunning := g\<rparr>)))"
  using breakBlocks_cases [of p blocks "call (SetControlState ''sneak'' True) (s\<lparr>protectionRunning := g\<rparr>)"]
  by (auto simp add: exits_def stop_alt call_def)

lemma exits_sneakAndScan:
  "exits s (sneakAndScan p (s\<lparr>protectionRunning := g\<rparr>))"
proof (cases "bot s")
  case None
  then show ?thesis by (simp add: sneakAndScan_def exits_def)
next
  case (Some b)
  then have nb: "bot s \<noteq> None" by simp
  show ?thesis
    using Some exits_sneak_afterLoop [OF nb, of g] exits_sneak_breakBlocks [OF nb, of p _ g]
    by (auto simp add: sneakAndScan_def scanLoop_def call_def)
qed

lemma exits_executeProtection: "exits s (executeProtection s)"
proof -
  have skip: "exits s (s, Skipped)" "exits s (s', Rejected)" "exits s (s', Suspended k)" for s' k
    by (simp_all add: exits_def)
  show ?thesis
    using skip exits_sneakAndScan [of s _ True]
    by (auto simp add: executeProtection_def Let_def split: option.splits)
qed

lemma exits_resumeProtection: "exits s (resumeProtection k ok s)"
proof -
  have skip: "exits s (s', Rejected)" "exits s (s', Suspended k')" for s' k'
    by (simp_all add: exits_def)
  have gone: "bot s = None \<Longrightarrow> exits s (s\<lparr>protectionRunning := False\<rparr>, Finished ClientGone)"
    by (simp add: exits_def)
  have sn: "exits s (sneakAndScan p s)" for p
    using exits_sneakAndScan [of s p "protectionRunning s"] by simp
  show ?thesis
    using skip gone sn exits_breakBlocks [of s] exits_scanLoop [of s]
    by (auto simp add: resumeProtection_def split: option.splits pcont.splits)
qed

subsection \<open>A stopped slot\<close>

lemma quiet_refl: "halted s \<Longrightarrow> quiet s s"
  by (simp add: quiet_def)

lemma quiet_trans: "quiet s s' \<Longrightarrow> quiet s' s'' \<Longrightarrow> quiet s s''"
  unfolding quiet_def by (elim conjE exE, intro conjI) (assumption, force, blast)

lemma quiet_timersI:
  "halted s \<Longrightarrow> isManuallyStopped s' \<Longrightarrow> bot s' = None \<Longrightarrow>
   (\<exists>cs. calls s' = calls s @ cs \<and> CreateBot \<notin> set cs) \<Longrightarrow>
   (\<forall>t\<in>set (timers s'). t \<in> set (timers s) \<or> (snd (snd t) \<noteq> RestartFire \<and> snd (snd t) \<noteq> ReconnectFire)) \<Longrightarrow>
   quiet s s'"
  unfolding quiet_def halted_def by blast

lemma calls_same: "calls s' = calls s \<Longrightarrow> \<exists>cs. calls s' = calls s @ cs \<and> CreateBot \<notin> set cs"
  by (rule exI [of _ "[]"]) simp

lemma quiet_stop: "halted s \<Longrightarrow> quiet s (snd (stop s))"
  by (rule quiet_timersI) (auto simp add: stop_alt halted_def intro: calls_same)

lemma quiet_cleanup: "halted s \<Longrightarrow> quiet s (cleanup s)"
  by (rule quiet_timersI) (auto simp add: cleanup_alt halted_def intro: calls_same)

lemma quiet_simple:
  assumes "halted s"
  shows "quiet s (snd (pause s))" "quiet s (snd (resume s))"
    "quiet s (snd (toggleProtection f s))" "quiet s (snd (sendChat m s))"
    "quiet s (snd (onLogin now s))" "quiet s (snd (onSpawn s))"
    "quiet s (onKicked r s)" "quiet s (onError s)" "quiet s (onMessage m s)"
  using assms
  by (auto intro!: quiet_timersI calls_same
      simp add: halted_def pause_def resume_def toggleProtection_def sendChat_def onLogin_def
        onSpawn_def onKicked_def onError_def onMessage_def setTimer_def Let_def
      split: option.splits)

lemma quiet_onEnd: "halted s \<Longrightarrow> quiet s (onEnd now s)"
  by (rule quiet_timersI)
     (auto simp add: onEnd_def handleReconnect_def cleanup_alt halted_def Let_def
        intro: calls_same split: option.splits)

lemma quiet_eat: "halted s \<Longrightarrow> quiet s (checkFoodResume outcome (s\<lparr>eatTasks := n\<rparr>))"
  by (rule quiet_timersI)
     (auto simp add: checkFoodResume_def eatCatch_def nextCheck_def setTimer_def halted_def Let_def
        intro: calls_same split: eat_outcome.splits)

lemma halted_resume:
  assumes "halted s"
  shows "quiet s (settle (resumeProtection k ok (s\<lparr>protectionTasks := ts\<rparr>)))"
proof -
  let ?s = "s\<lparr>protectionTasks := ts\<rparr>"
  from assms have b: "bot ?s = None" by (simp add: halted_def)
  have bb: "fst (breakBlocks p blocks ?s) = ?s \<or> fst (breakBlocks p blocks ?s) = ?s\<lparr>protectionRunning := False\<rparr>" for p blocks
    using breakBlocks_cases [of p blocks ?s] b by auto
  have al: "fst (afterLoop ?s) = snd (stop (?s\<lparr>protectionRunning := False\<rparr>))"
    using b by (simp add: afterLoop_def)
  have sl: "fst (scanLoop p ?s) = snd (stop (?s\<lparr>protectionRunning := False\<rparr>))" for p
    using b al by (simp add: scanLoop_def)
  have sn: "fst (sneakAndScan p ?s) = ?s" for p
    using b by (simp add: sneakAndScan_def)
  have "fst (resumeProtection k ok ?s) = ?s
        \<or> fst (resumeProtection k ok ?s) = ?s\<lparr>protectionRunning := False\<rparr>
        \<or> fst (resumeProtection k ok ?s) = snd (stop (?s\<lparr>protectionRunning := False\<rparr>))"
    using b bb sl sn by (auto simp add: resumeProtection_def split: option.splits pcont.splits)
  then show ?thesis
    using assms
    by (elim disjE; intro quiet_timersI)
       (auto simp add: settle_alt halted_def stop_alt intro: calls_same)
qed

lemma quiet_fire: "halted s \<Longrightarrow> quiet s (fire h now created s)"
proof -
  assume h: "halted s"
  then have b: "bot s = None" and m: "isManuallyStopped s"
    and nr: "\<And>d. map_of (timers s) h \<noteq> Some (d, RestartFire)"
    by (auto simp add: halted_def dest!: map_of_SomeD)
  have al: "quiet s (alertLoopTick h n d c s)" for n d c
    using h by (intro quiet_timersI) (auto simp add: alertLoopTick_def halted_def clearTimer_def Let_def intro: calls_same)
  show ?thesis
  proof (cases "map_of (timers s) h")
    case None
    then show ?thesis using h by (simp add: fire_def quiet_refl)
  next
    case (Some dc)
    obtain d cb where dc: "dc = (d, cb)" by (cases dc)
    show ?thesis
      using h b m nr [of d] Some dc al
      by (cases cb)
         (auto simp add: fire_def antiAfkTick_def jumpRelease_def checkFood_def nextCheck_def
            proximityTick_def lobbyFirstTry_def lobbyRetry_def stopLobbyRetry_def reconnectFire_def
            teleportCheck_def returnCheck_def clearTimer_def clearTracked_alt setTimer_def halted_def
            Let_def intro!: quiet_timersI calls_same)
  qed
qed

lemma quiet_step: "halted s \<Longrightarrow> \<not> operatorStart ev \<Longrightarrow> quiet s (step ev s)"
proof (cases ev)
  case (ProtectionSettled i ok)
  assume "halted s"
  then show ?thesis
    using ProtectionSettled halted_resume [of s] by (simp add: step_def quiet_refl)
next
  case (EatSettled outcome)
  assume "halted s"
  then show ?thesis
    using EatSettled quiet_eat [of s] by (simp add: step_def quiet_refl)
next
  case (World c)
  assume "halted s"
  then show ?thesis using World by (simp add: step_def quiet_refl halted_def)
qed (simp_all add: step_def quiet_stop quiet_simple quiet_onEnd quiet_fire)

lemma quiet_halted: "quiet s s' \<Longrightarrow> halted s'"
  by (simp add: quiet_def)

lemma quiet_run:
  "halted s \<Longrightarrow> \<forall>ev\<in>set evs. \<not> operatorStart ev \<Longrightarrow> quiet s (run evs s)"
proof (induction evs arbitrary: s)
  case Nil
  then show ?case by (simp add: quiet_refl)
next
  case (Cons ev evs)
  from Cons.prems have q1: "quiet s (step ev s)" by (simp add: quiet_step)
  from Cons.IH [OF quiet_halted [OF q1]] Cons.prems(2)
  have "quiet (step ev s) (run evs (step ev s))" by simp
  with q1 show ?case by (simp add: quiet_trans)
qed

subsection \<open>Evaluation of the example ticks\<close>

lemmas world_defs = selfEntity_def intruderAt_def watchClient_def spawnerClient_def pickaxeClient_def
  newClient_def threatenedSession_def unprotectedSettings_def unprotectedSession_def tickTime_def

lemmas tick_defs = proximityTick_def scanEntities.simps alertRule_def executeProtection_def sneakAndScan_def
  scanLoop_def afterLoop_def breakBlocks.simps settle_alt resumeProtection_def isEnemyNearby_def
  emergencyDistanceOf_def alertDistanceOf_def cooldownOf_def lastAlertOf_def blockName_def jsOrStr_def
  toLowerCase_def toLowerChar_def distanceTo_def stop_alt alertLoopTick_def

lemma threatened_tick:
  "proximityTick 2000 threatenedSession =
     (EmergencyStop, snd (stop ((call (ProximityAlert ''Intruder'' 5) threatenedSession)\<lparr>protectionRunning := False\<rparr>)))"
  by (simp add: world_defs onlineSession_eval base_defs step_def tick_defs timer_defs)

lemma unprotected_tick3:
  "fst (proximityTick_decl3 tickTime unprotectedSession) = ScanDone
   \<and> bot (snd (proximityTick_decl3 tickTime unprotectedSession)) = Some (watchClient 5)
   \<and> status (snd (proximityTick_decl3 tickTime unprotectedSession)) = Online
   \<and> \<not> isManuallyStopped (snd (proximityTick_decl3 tickTime unprotectedSession))
   \<and> calls (snd (proximityTick_decl3 tickTime unprotectedSession)) = calls onlineSession"
  by (simp add: world_defs onlineSession_eval base_defs step_def tick_defs timer_defs
       proximityTick_decl3_def scanEntities_decl3.simps alertRule_decl3_def protectionConfigured_def)

subsection \<open>Evaluation of the example runs\<close>

lemmas run_defs = step_def fire_def toggleProtection_def




lemma threat_run:
  "calls (run threatDuringProtection onlineSession) =
     calls onlineSession @ [SetControlState ''sneak'' True, LookAt (2, 64, 2), Dig (2, 64, 2), Quit]
   \<and> protectionTasks (run threatDuringProtection onlineSession) = []
   \<and> status (run threatDuringProtection onlineSession) = Offline
   \<and> \<not> protectionRunning (run threatDuringProtection onlineSession)"
  by (simp add: threatDuringProtection_def onlineSession_eval base_defs run_defs world_defs tick_defs timer_defs)

lemma lost_run:
  "calls (run connectionLostDuringProtection onlineSession) =
     calls onlineSession @ [SetControlState ''sneak'' True, LookAt (2, 64, 2)]
   \<and> protectionTasks (run connectionLostDuringProtection onlineSession) = []
   \<and> \<not> isManuallyStopped (run connectionLostDuringProtection onlineSession)
   \<and> timers (run connectionLostDuringProtection onlineSession) =
        [(4, 1000, AlertLoop ''Intruder'' 50 0), (5, 5000, ReconnectFire)]"
  by (simp add: connectionLostDuringProtection_def onlineSession_eval base_defs run_defs world_defs tick_defs timer_defs
      onEnd_def cleanup_alt handleReconnect_def)

lemma stuck_guard:
  "protectionRunning (run lostDuringEquip onlineSession)
   \<and> protectionTasks (run lostDuringEquip onlineSession) = []
   \<and> calls (run lostDuringEquip onlineSession) = calls onlineSession @ [Equip ''diamond_pickaxe'']"
  by (simp add: lostDuringEquip_def onlineSession_eval base_defs run_defs world_defs tick_defs timer_defs
      onEnd_def cleanup_alt handleReconnect_def)

lemma later_trigger:
  "protectionRunning (run laterTrigger onlineSession)
   \<and> protectionEnabled (run laterTrigger onlineSession)
   \<and> status (run laterTrigger onlineSession) = Online
   \<and> protectionTasks (run laterTrigger onlineSession) = []
   \<and> alertCooldowns (run laterTrigger onlineSession) ''Intruder'' = Some (tickTime + 400000)
   \<and> calls (run laterTrigger onlineSession) =
       calls onlineSession @ [Equip ''diamond_pickaxe'', CreateBot, SetControlState ''sneak'' True, Connected]"
  by (simp add: laterTrigger_def lostDuringEquip_def onlineSession_eval base_defs run_defs world_defs tick_defs timer_defs
      onEnd_def cleanup_alt handleReconnect_def reconnectFire_def start_def onLogin_def startAntiAfk_def
      startProximityCheck_def startAutoEat_def startInventoryMonitor_def clearTracked_alt)

lemma orphan:
  "isManuallyStopped (run orphanRun exampleSession)
   \<and> timers (run orphanRun exampleSession) = [(0, 5000, ReconnectFire)]
   \<and> reconnectTimeout (run orphanRun exampleSession) = None"
  by (simp add: orphanRun_def pendingReconnects_def base_defs run_defs timer_defs start_def onEnd_def
        cleanup_alt handleReconnect_def stop_alt)

subsection \<open>The emergency rule\<close>

lemma threatenedSession_eval: "threatenedSession = onlineSession\<lparr>bot := Some (watchClient 5)\<rparr>"
  by (simp add: threatenedSession_def step_def onlineSession_eval base_defs)

lemma threatened_facts:
  "bot threatenedSession = Some (watchClient 5)"
  "status threatenedSession = Online"
  "\<not> isPaused threatenedSession"
  "\<not> isInLobby threatenedSession"
  "protectionEnabled threatenedSession"
  "protectionConfigured threatenedSession"
  "cachedWhitelist threatenedSession = [''friend'']"
  "username threatenedSession = ''afk_bot''"
  "emergencyDistanceOf threatenedSession = 10"
  "calls threatenedSession = calls onlineSession"
  "alertWhitelist (settings threatenedSession) = Some [''Friend'']"
  "onProximityAlert threatenedSession"
  by (simp_all add: threatenedSession_eval onlineSession_eval base_defs protectionConfigured_def
        emergencyDistanceOf_def jsOr_def toLowerCase_def toLowerChar_def)

lemma unprotected_facts:
  "bot unprotectedSession = Some (watchClient 5)"
  "status unprotectedSession = Online"
  "\<not> isPaused unprotectedSession"
  "\<not> isInLobby unprotectedSession"
  "\<not> protectionConfigured unprotectedSession"
  "username unprotectedSession = ''afk_bot''"
  "emergencyDistanceOf unprotectedSession = 10"
  "calls unprotectedSession = calls onlineSession"
  "alertWhitelist (settings unprotectedSession) = Some [''Friend'']"
  by (simp_all add: unprotectedSession_def unprotectedSettings_def threatenedSession_eval
        onlineSession_eval base_defs protectionConfigured_def emergencyDistanceOf_def jsOr_def)

lemma intruder_facts:
  "bot_entity (watchClient x) = Some (0, 64, 0)"
  "bot_entities (watchClient x) = [selfEntity, intruderAt x]"
  "etype (intruderAt x) = ''player''"
  "eusername (intruderAt x) = ''Intruder''"
  "eposition (intruderAt x) = Some (x, 64, 0)"
  "0 \<le> x \<Longrightarrow> distanceTo (0, 64, 0) (x, 64, 0) = x"
  by (simp_all add: world_defs distanceTo_def)

text \<open>
  Claim C1, as amended. Take a proximity tick on a slot that is online, not paused and
  holds a client with a position, and a player entity \<open>e\<close> of the client's entities, other
  than the slot's own identity, with a position at distance at most the emergency
  distance (\<^verbatim>\<open>protection.emergencyDistance\<close>, else 10).
  In the second declaration (lines 1095--1154), if the slot is not in lobby mode and
  \<open>e\<close> is not on the cached whitelist, the tick ends with the slot stopped by \<^verbatim>\<open>stop()\<close>:
  no client, phase 'offline', the manual-stop flag set, \<^verbatim>\<open>quit\<close> the last call; the
  scan did not run to its end; and when it ended at the \<^verbatim>\<open>return\<close> of the emergency rule,
  an entity within the emergency distance was reported to the alert callback, if one is
  registered, right before the \<^verbatim>\<open>quit\<close>. The statement has no hypothesis on
  \<^verbatim>\<open>protectionEnabled\<close>: the scan can end otherwise only when the protection sequence
  was triggered, so with protection disabled it always ends at the emergency rule.
  In the third declaration (lines 1824--1896) the same holds (for \<open>e\<close> not on the
  configured whitelist) when \<^verbatim>\<open>protection.enabled\<close> is set in the configuration; when it
  is not, the tick runs to its end and leaves client, phase, manual-stop flag and calls
  as they were.
\<close>

theorem emergency_rule:
  assumes "bot s = Some b" and "status s = Online" and "\<not> isPaused s"
    and "bot_entity b = Some me"
    and "e \<in> set (bot_entities b)" and "etype e = ''player''" and "eusername e \<noteq> username s"
    and "eposition e = Some p" and "distanceTo me p \<le> emergencyDistanceOf s"
  shows "(\<not> isInLobby s \<and> toLowerCase (eusername e) \<notin> set (cachedWhitelist s)
            \<longrightarrow> emergencyOutcome s me (bot_entities b) (proximityTick now s))
       \<and> (candidate_decl3 s e \<and> protectionConfigured s
            \<longrightarrow> emergencyOutcome_decl3 s me (bot_entities b) (proximityTick_decl3 now s))
       \<and> (\<not> protectionConfigured s
            \<longrightarrow> fst (proximityTick_decl3 now s) = ScanDone
                \<and> bot (snd (proximityTick_decl3 now s)) = Some b
                \<and> status (snd (proximityTick_decl3 now s)) = Online
                \<and> isManuallyStopped (snd (proximityTick_decl3 now s)) = isManuallyStopped s
                \<and> calls (snd (proximityTick_decl3 now s)) = calls s)"
proof (intro conjI impI)
  assume a: "\<not> isInLobby s \<and> toLowerCase (eusername e) \<notin> set (cachedWhitelist s)"
  with assms have "candidate s e" by (simp add: candidate_def)
  with assms have "enemyAmong s me (bot_entities b)" unfolding enemyAmong_iff by blast
  from scan_threat [OF assms(1) assms(4) this, of now] assms a
  show "emergencyOutcome s me (bot_entities b) (proximityTick now s)"
    by (simp add: proximityTick_def)
next
  assume a: "candidate_decl3 s e \<and> protectionConfigured s"
  with assms have "threatAmong_decl3 s me (bot_entities b)"
    unfolding threatAmong_decl3_def by blast
  from scan3_threat [OF assms(1) assms(4) _ this, of now] assms a
  show "emergencyOutcome_decl3 s me (bot_entities b) (proximityTick_decl3 now s)"
    by (simp add: proximityTick_decl3_def)
next
  assume a: "\<not> protectionConfigured s"
  from scan3_off [OF assms(1) a, of now "bot_entities b"] assms
  show "fst (proximityTick_decl3 now s) = ScanDone"
    "bot (snd (proximityTick_decl3 now s)) = Some b"
    "status (snd (proximityTick_decl3 now s)) = Online"
    "isManuallyStopped (snd (proximityTick_decl3 now s)) = isManuallyStopped s"
    "calls (snd (proximityTick_decl3 now s)) = calls s"
    by (simp_all add: proximityTick_decl3_def)
qed


text \<open>The intruder 5 blocks away, with protection enabled and toggled off, and in the
  third declaration with protection configured and not.\<close>

theorem emergency_rule_witness:
  "emergencyOutcome threatenedSession (0, 64, 0) [selfEntity, intruderAt 5]
     (proximityTick 2000 threatenedSession)
   \<and> fst (proximityTick 2000 threatenedSession) = EmergencyStop
   \<and> calls (snd (proximityTick 2000 threatenedSession))
       = calls onlineSession @ [ProximityAlert ''Intruder'' 5, Quit]
   \<and> emergencyOutcome (threatenedSession\<lparr>protectionEnabled := False\<rparr>) (0, 64, 0)
       [selfEntity, intruderAt 5]
       (proximityTick 2000 (threatenedSession\<lparr>protectionEnabled := False\<rparr>))
   \<and> emergencyOutcome_decl3 threatenedSession (0, 64, 0) [selfEntity, intruderAt 5]
       (proximityTick_decl3 2000 threatenedSession)
   \<and> fst (proximityTick_decl3 2000 unprotectedSession) = ScanDone
   \<and> status (snd (proximityTick_decl3 2000 unprotectedSession)) = Online"
proof -
  have c3: "candidate_decl3 threatenedSession (intruderAt 5)"
    by (simp add: candidate_decl3_def intruder_facts threatened_facts toLowerCase_def
          toLowerChar_def)
  have w: "toLowerCase (eusername (intruderAt 5)) \<notin> set (cachedWhitelist threatenedSession)"
    by (simp add: intruder_facts threatened_facts toLowerCase_def toLowerChar_def)
  have d: "distanceTo (0, 64, 0) (5, 64, 0) \<le> (10 :: real)"
    by (simp add: intruder_facts)
  have 1: "emergencyOutcome threatenedSession (0, 64, 0) [selfEntity, intruderAt 5]
             (proximityTick 2000 threatenedSession)
           \<and> emergencyOutcome_decl3 threatenedSession (0, 64, 0) [selfEntity, intruderAt 5]
             (proximityTick_decl3 2000 threatenedSession)"
    using emergency_rule [of threatenedSession "watchClient 5" "(0, 64, 0)" "intruderAt 5"
            "(5, 64, 0)" 2000] c3 w d
    by (simp add: intruder_facts threatened_facts)
  have e: "emergencyDistanceOf (threatenedSession\<lparr>protectionEnabled := False\<rparr>) = 10"
    using threatened_facts(9) by (simp add: emergencyDistanceOf_def)
  have 2: "emergencyOutcome (threatenedSession\<lparr>protectionEnabled := False\<rparr>) (0, 64, 0)
             [selfEntity, intruderAt 5]
             (proximityTick 2000 (threatenedSession\<lparr>protectionEnabled := False\<rparr>))"
    using emergency_rule [of "threatenedSession\<lparr>protectionEnabled := False\<rparr>" "watchClient 5"
            "(0, 64, 0)" "intruderAt 5" "(5, 64, 0)" 2000] w d e
    by (simp add: intruder_facts threatened_facts)
  have 3: "fst (proximityTick_decl3 2000 unprotectedSession) = ScanDone
           \<and> status (snd (proximityTick_decl3 2000 unprotectedSession)) = Online"
    using emergency_rule [of unprotectedSession "watchClient 5" "(0, 64, 0)" "intruderAt 5"
            "(5, 64, 0)" 2000] d
    by (simp add: intruder_facts unprotected_facts)
  have 4: "fst (proximityTick 2000 threatenedSession) = EmergencyStop
           \<and> calls (snd (proximityTick 2000 threatenedSession))
               = calls onlineSession @ [ProximityAlert ''Intruder'' 5, Quit]"
    by (simp add: threatened_tick stop_alt call_def threatened_facts)
  from 1 2 3 4 show ?thesis by blast
qed

text \<open>The claim as stated fails on the tick of the third declaration: with protection
  disabled in the configuration, an intruder 5 blocks away (emergency distance 10) is
  neither reported nor does the slot stop.\<close>

theorem emergency_rule_decl3_counterexample:
  "bot unprotectedSession = Some (watchClient 5)
   \<and> status unprotectedSession = Online \<and> \<not> isPaused unprotectedSession
   \<and> \<not> isInLobby unprotectedSession
   \<and> bot_entity (watchClient 5) = Some (0, 64, 0)
   \<and> intruderAt 5 \<in> set (bot_entities (watchClient 5))
   \<and> etype (intruderAt 5) = ''player''
   \<and> eusername (intruderAt 5) \<noteq> username unprotectedSession
   \<and> candidate_decl3 unprotectedSession (intruderAt 5)
   \<and> eposition (intruderAt 5) = Some (5, 64, 0)
   \<and> distanceTo (0, 64, 0) (5, 64, 0) \<le> emergencyDistanceOf unprotectedSession
   \<and> fst (proximityTick_decl3 tickTime unprotectedSession) = ScanDone
   \<and> bot (snd (proximityTick_decl3 tickTime unprotectedSession)) = Some (watchClient 5)
   \<and> status (snd (proximityTick_decl3 tickTime unprotectedSession)) = Online
   \<and> \<not> isManuallyStopped (snd (proximityTick_decl3 tickTime unprotectedSession))
   \<and> calls (snd (proximityTick_decl3 tickTime unprotectedSession)) = calls unprotectedSession"
proof -
  have "candidate_decl3 unprotectedSession (intruderAt 5)"
    by (simp add: candidate_decl3_def intruder_facts unprotected_facts toLowerCase_def
          toLowerChar_def)
  with unprotected_tick3 show ?thesis
    by (simp add: intruder_facts unprotected_facts)
qed

subsection \<open>One alert burst per cooldown window\<close>








subsection \<open>The ways out of the protection sequence\<close>

lemma exit_examples:
  "snd (executeProtection onlineSession) = Finished AfterLoop"
  "calls (fst (executeProtection onlineSession))
       = calls onlineSession
         @ [SetControlState ''sneak'' True, SetControlState ''sneak'' False, Quit]"
  "snd (resumeProtection (AwaitDig [(3, 64, 3)]) True
          (threatenedSession\<lparr>protectionRunning := True\<rparr>)) = Finished Threat"
  "calls (fst (resumeProtection (AwaitDig [(3, 64, 3)]) True
          (threatenedSession\<lparr>protectionRunning := True\<rparr>))) = calls onlineSession @ [Quit]"
  "snd (resumeProtection (AwaitLookAt (2, 64, 2) [(3, 64, 3)]) True
          (failedSession\<lparr>protectionRunning := True\<rparr>)) = Finished ClientGone"
  by (simp_all add: threatenedSession_eval onlineSession_eval failedSession_def base_defs world_defs
        tick_defs timer_defs)

text \<open>
  Claim C6, as amended. A run \<open>r\<close> of the protection sequence (lines 1175--1273), from
  its call or from a resumption, that ends the sequence does one of three things. When it
  leaves the \<^verbatim>\<open>while\<close> loop (inventory reserve reached, no target block left, or the loop
  test finds no client or a phase other than 'online'), the slot is stopped by \<^verbatim>\<open>stop()\<close>
  and the guard is cleared; with a client held, the sneak control is released right before
  the \<^verbatim>\<open>quit\<close>, and without one nothing is called. When it finds a threat within the
  emergency distance (line 1230), the slot is stopped by \<^verbatim>\<open>stop()\<close> and the guard is
  cleared, but the sneak control is not released. When it finds the client missing at
  line 1227 or 1248, it clears the guard and does nothing else: no release, no \<^verbatim>\<open>stop()\<close>.
\<close>

theorem protection_exit_paths:
  assumes "r = executeProtection s \<or> r = resumeProtection k ok s"
  shows "(snd r = Finished AfterLoop \<longrightarrow>
           bot (fst r) = None \<and> status (fst r) = Offline \<and> isManuallyStopped (fst r)
           \<and> \<not> protectionRunning (fst r)
           \<and> (if bot s = None then calls (fst r) = calls s
               else \<exists>cs. calls (fst r) = calls s @ cs @ [SetControlState ''sneak'' False, Quit]))
       \<and> (snd r = Finished Threat \<longrightarrow>
           bot s \<noteq> None
           \<and> bot (fst r) = None \<and> status (fst r) = Offline \<and> isManuallyStopped (fst r)
           \<and> \<not> protectionRunning (fst r)
           \<and> (\<exists>cs. calls (fst r) = calls s @ cs @ [Quit]
                    \<and> SetControlState ''sneak'' False \<notin> set cs))
       \<and> (snd r = Finished ClientGone \<longrightarrow>
           bot s = None \<and> fst r = s\<lparr>protectionRunning := False\<rparr>)"
proof -
  from assms have "exits s r"
    using exits_executeProtection [of s] exits_resumeProtection [of s k ok] by auto
  then show ?thesis unfolding exits_def .
qed

text \<open>One run for each of the three ways out.\<close>

theorem protection_exit_paths_witness:
  "snd (executeProtection onlineSession) = Finished AfterLoop
   \<and> calls (fst (executeProtection onlineSession))
       = calls onlineSession
         @ [SetControlState ''sneak'' True, SetControlState ''sneak'' False, Quit]
   \<and> status (fst (executeProtection onlineSession)) = Offline
   \<and> isManuallyStopped (fst (executeProtection onlineSession))
   \<and> snd (resumeProtection (AwaitDig [(3, 64, 3)]) True
            (threatenedSession\<lparr>protectionRunning := True\<rparr>)) = Finished Threat
   \<and> calls (fst (resumeProtection (AwaitDig [(3, 64, 3)]) True
            (threatenedSession\<lparr>protectionRunning := True\<rparr>))) = calls onlineSession @ [Quit]
   \<and> isManuallyStopped (fst (resumeProtection (AwaitDig [(3, 64, 3)]) True
            (threatenedSession\<lparr>protectionRunning := True\<rparr>)))
   \<and> snd (resumeProtection (AwaitLookAt (2, 64, 2) [(3, 64, 3)]) True
            (failedSession\<lparr>protectionRunning := True\<rparr>)) = Finished ClientGone
   \<and> fst (resumeProtection (AwaitLookAt (2, 64, 2) [(3, 64, 3)]) True
            (failedSession\<lparr>protectionRunning := True\<rparr>))
       = failedSession\<lparr>protectionRunning := True\<rparr>\<lparr>protectionRunning := False\<rparr>"
proof -
  have 1: "status (fst (executeProtection onlineSession)) = Offline
           \<and> isManuallyStopped (fst (executeProtection onlineSession))"
    using protection_exit_paths [of "executeProtection onlineSession" onlineSession]
      exit_examples(1)
    by simp
  have 2: "isManuallyStopped (fst (resumeProtection (AwaitDig [(3, 64, 3)]) True
            (threatenedSession\<lparr>protectionRunning := True\<rparr>)))"
    using protection_exit_paths [of "resumeProtection (AwaitDig [(3, 64, 3)]) True
            (threatenedSession\<lparr>protectionRunning := True\<rparr>)"
            "threatenedSession\<lparr>protectionRunning := True\<rparr>" "AwaitDig [(3, 64, 3)]" True]
      exit_examples(3)
    by simp
  have 3: "fst (resumeProtection (AwaitLookAt (2, 64, 2) [(3, 64, 3)]) True
            (failedSession\<lparr>protectionRunning := True\<rparr>))
           = failedSession\<lparr>protectionRunning := True\<rparr>\<lparr>protectionRunning := False\<rparr>"
    using protection_exit_paths [of "resumeProtection (AwaitLookAt (2, 64, 2) [(3, 64, 3)]) True
            (failedSession\<lparr>protectionRunning := True\<rparr>)"
            "failedSession\<lparr>protectionRunning := True\<rparr>" "AwaitLookAt (2, 64, 2) [(3, 64, 3)]" True]
      exit_examples(5)
    by simp
  from 1 2 3 exit_examples show ?thesis by blast
qed

text \<open>The claim as stated fails. When the intruder comes within the emergency distance
  while a block is dug, the sequence quits without releasing the sneak control. When the
  connection ends while the sequence waits for \<^verbatim>\<open>lookAt\<close>, the sequence ends without
  \<^verbatim>\<open>stop()\<close>: nothing more is called, the slot is not manually stopped, and the reconnect
  timer set by the 'end' handler stays pending.\<close>

theorem protection_exit_counterexample:
  "calls (run threatDuringProtection onlineSession) =
     calls onlineSession @ [SetControlState ''sneak'' True, LookAt (2, 64, 2), Dig (2, 64, 2), Quit]
   \<and> protectionTasks (run threatDuringProtection onlineSession) = []
   \<and> calls (run connectionLostDuringProtection onlineSession) =
       calls onlineSession @ [SetControlState ''sneak'' True, LookAt (2, 64, 2)]
   \<and> protectionTasks (run connectionLostDuringProtection onlineSession) = []
   \<and> \<not> isManuallyStopped (run connectionLostDuringProtection onlineSession)
   \<and> timers (run connectionLostDuringProtection onlineSession) =
        [(4, 1000, AlertLoop ''Intruder'' 50 0), (5, 5000, ReconnectFire)]"
  using threat_run lost_run by simp

subsection \<open>The guard of the protection sequence, and the slot after a stop\<close>

lemma halted_stop:
  "\<forall>t\<in>set (timers s). snd (snd t) \<noteq> RestartFire \<Longrightarrow> halted (snd (stop s))"
  by (simp add: halted_def stop_alt)

lemma stop_cancels_tracked:
  "reconnectTimeout (snd (stop s)) = None
   \<and> (\<forall>t\<in>set (timers (snd (stop s))). Some (fst t) \<noteq> reconnectTimeout s)"
  by (simp add: stop_alt)

lemma pending_reconnects:
  "timers (run pendingReconnects exampleSession) = [(0, 5000, ReconnectFire), (1, 5000, ReconnectFire)]
   \<and> reconnectTimeout (run pendingReconnects exampleSession) = Some 1
   \<and> calls (run pendingReconnects exampleSession) = [CreateBot, CreateBot]"
  by (simp add: pendingReconnects_def base_defs run_defs timer_defs start_def onEnd_def cleanup_alt
        handleReconnect_def)

lemma after_stop:
  "timers (snd (stop (run pendingReconnects exampleSession))) = [(0, 5000, ReconnectFire)]
   \<and> calls (run afterStop (snd (stop (run pendingReconnects exampleSession))))
        = [CreateBot, CreateBot]
   \<and> timers (run afterStop (snd (stop (run pendingReconnects exampleSession)))) = []"
  by (simp add: afterStop_def pendingReconnects_def stop_alt base_defs run_defs timer_defs start_def
        onEnd_def cleanup_alt handleReconnect_def onLogin_def resume_def sendChat_def onKicked_def
        reconnectFire_def)

text \<open>
  Claim C5. The guard is not cleared on every way out of the sequence. The slot holds a
  pickaxe, so the sequence triggered by the intruder at 50 blocks waits for \<^verbatim>\<open>equip\<close>
  (line 1190) with the guard set. The connection ends, and the 'end' handler drops the
  client. When the promise of \<^verbatim>\<open>equip\<close> is settled, line 1199 dereferences the missing
  client: the sequence ends with a TypeError, nothing of it is suspended any more, and the
  guard is still set. After the reconnect and the login, a tick more than one cooldown
  later records a new alert for the intruder at 50 blocks, with protection enabled and
  the slot online, and the call of \<^verbatim>\<open>executeProtection\<close> returns at the guard: nothing
  is equipped, and the guard stays set.
\<close>

theorem protection_guard_stuck:
  "protectionRunning (run lostDuringEquip onlineSession)
   \<and> protectionTasks (run lostDuringEquip onlineSession) = []
   \<and> calls (run lostDuringEquip onlineSession) = calls onlineSession @ [Equip ''diamond_pickaxe'']
   \<and> protectionRunning (run laterTrigger onlineSession)
   \<and> protectionEnabled (run laterTrigger onlineSession)
   \<and> status (run laterTrigger onlineSession) = Online
   \<and> protectionTasks (run laterTrigger onlineSession) = []
   \<and> alertCooldowns (run laterTrigger onlineSession) ''Intruder'' = Some (tickTime + 400000)
   \<and> calls (run laterTrigger onlineSession) =
       calls onlineSession @ [Equip ''diamond_pickaxe'', CreateBot, SetControlState ''sneak'' True, Connected]"
  using stuck_guard later_trigger by simp

text \<open>A restart of the operator that is pending when the slot is stopped is not
  cancelled by the stop, and its callback calls \<^verbatim>\<open>start\<close> without a test of the flag:
  the statement on stopped slots below is about slots with no restart pending.\<close>

lemma restart_then_stop:
  "timers (run [OpRestart, OpStop] onlineSession) = [(4, 2000, RestartFire)]
   \<and> isManuallyStopped (run [OpRestart, OpStop] onlineSession)
   \<and> \<not> isManuallyStopped (run restartThenStop onlineSession)
   \<and> bot (run restartThenStop onlineSession) = Some newClient
   \<and> status (run restartThenStop onlineSession) = Connecting
   \<and> calls (run restartThenStop onlineSession) = calls onlineSession @ [Quit, CreateBot]"
  by (simp add: restartThenStop_def onlineSession_eval base_defs run_defs timer_defs stop_alt restart_def
        restartFire_def start_def)

text \<open>
  Claim C2, as amended. Let \<^verbatim>\<open>stop()\<close> be called on a slot with no restart of the
  operator pending, and let any events follow, none of them a start or restart by the
  operator. Then at every moment after: the manual-stop flag is set and the slot holds no
  client; no client has been created since the stop; and no reconnect timer has been
  added since the stop. The stop itself cancels the reconnect timer whose handle the slot
  holds and forgets the handle. (A reconnect timer whose handle was overwritten stays
  pending; when it fires, the callback tests the flag and does not start the slot.)
\<close>

theorem stopped_slot_stays_stopped:
  assumes "\<forall>t\<in>set (timers s). snd (snd t) \<noteq> RestartFire"
    and "\<forall>ev\<in>set evs. \<not> operatorStart ev"
  shows "isManuallyStopped (run evs (snd (stop s)))
       \<and> bot (run evs (snd (stop s))) = None
       \<and> (\<exists>cs. calls (run evs (snd (stop s))) = calls (snd (stop s)) @ cs \<and> CreateBot \<notin> set cs)
       \<and> (\<forall>t\<in>set (timers (run evs (snd (stop s)))).
             snd (snd t) = ReconnectFire \<longrightarrow> t \<in> set (timers (snd (stop s))))
       \<and> reconnectTimeout (snd (stop s)) = None
       \<and> (\<forall>t\<in>set (timers (snd (stop s))). Some (fst t) \<noteq> reconnectTimeout s)"
proof -
  from assms(1) have "halted (snd (stop s))" by (rule halted_stop)
  from quiet_run [OF this assms(2)]
  have "quiet (snd (stop s)) (run evs (snd (stop s)))" .
  then show ?thesis using stop_cancels_tracked [of s]
    unfolding quiet_def halted_def by blast
qed

text \<open>A stop with two reconnect timers pending: the one whose handle is held is cancelled,
  the other fires after the stop, and no client is created.\<close>

theorem stopped_slot_stays_stopped_witness:
  "isManuallyStopped (run afterStop (snd (stop (run pendingReconnects exampleSession))))
   \<and> bot (run afterStop (snd (stop (run pendingReconnects exampleSession)))) = None
   \<and> timers (snd (stop (run pendingReconnects exampleSession))) = [(0, 5000, ReconnectFire)]
   \<and> calls (run afterStop (snd (stop (run pendingReconnects exampleSession))))
        = [CreateBot, CreateBot]
   \<and> calls (run pendingReconnects exampleSession) = [CreateBot, CreateBot]
   \<and> timers (run afterStop (snd (stop (run pendingReconnects exampleSession)))) = []"
proof -
  have "isManuallyStopped (run afterStop (snd (stop (run pendingReconnects exampleSession))))
        \<and> bot (run afterStop (snd (stop (run pendingReconnects exampleSession)))) = None"
    using stopped_slot_stays_stopped [of "run pendingReconnects exampleSession" afterStop]
    by (simp add: pending_reconnects afterStop_def)
  with after_stop pending_reconnects show ?thesis by simp
qed

text \<open>The claim as stated fails in its last part: \<^verbatim>\<open>stop()\<close> does not cancel every pending
  reconnect timer. After the stop of the run above the manual-stop flag is set and a
  reconnect timer is pending.\<close>

theorem orphan_reconnect_timer_counterexample:
  "isManuallyStopped (run orphanRun exampleSession)
   \<and> timers (run orphanRun exampleSession) = [(0, 5000, ReconnectFire)]
   \<and> reconnectTimeout (run orphanRun exampleSession) = None"
  using orphan by simp

end
